theory Spec2Isabelle
  imports Main
begin

section \<open>The Routes WSGI middleware (\<^verbatim>\<open>routes/middleware.py\<close>)\<close>

text \<open>
  The theory embeds \<^verbatim>\<open>RoutesMiddleware.__call__\<close> and \<^verbatim>\<open>is_form_post\<close>.
  The WSGI environment is a dictionary that the Python mutates in place; here it is a
  field of an explicit state that every step takes and returns. An exception is a value
  \<open>Inl e\<close>, returned together with the state as it was when the exception left the
  function, because the mutations made before a \<^verbatim>\<open>raise\<close> stay visible to the caller.

  What the module imports and does not define (webob's \<^verbatim>\<open>Request\<close>, the shared
  \<^verbatim>\<open>request_config\<close>, the mapper's \<^verbatim>\<open>routematch\<close>, \<^verbatim>\<open>URLGenerator\<close>) and the wrapped
  application are parameters: arbitrary functions on the state, which may change the
  environment and may raise.
\<close>

subsection \<open>Strings\<close>

text \<open>
  A Python \<^verbatim>\<open>str\<close> is modelled as a \<open>string\<close>. \<^verbatim>\<open>str.upper\<close>, which the module calls on
  the value of \<open>_method\<close>, maps letters of every script and is not defined here: it is a
  parameter (\<open>str_upper\<close> below). \<^verbatim>\<open>str.lower\<close> is only used by \<^verbatim>\<open>is_form_post\<close>, whose
  result is compared with two ASCII literals, and is modelled on the ASCII letters.
\<close>

definition ascii_lowercase :: string where
  "ascii_lowercase = ''abcdefghijklmnopqrstuvwxyz''"

definition ascii_uppercase :: string where
  "ascii_uppercase = ''ABCDEFGHIJKLMNOPQRSTUVWXYZ''"

definition lower_char :: "char \<Rightarrow> char" where
  "lower_char c =
     (case map_of (zip ascii_uppercase ascii_lowercase) c of Some l \<Rightarrow> l | None \<Rightarrow> c)"

definition lower :: "string \<Rightarrow> string" where
  "lower s = map lower_char s"

text \<open>\<^verbatim>\<open>s.startswith(p)\<close>.\<close>

fun startswith :: "string \<Rightarrow> string \<Rightarrow> bool" where
  "startswith s [] = True"
| "startswith [] (p # ps) = False"
| "startswith (c # cs) (p # ps) = (c = p \<and> startswith cs ps)"

text \<open>\<^verbatim>\<open>sub in s\<close> on strings: \<open>sub\<close> occurs in \<open>s\<close> as a contiguous substring.\<close>

fun contains :: "string \<Rightarrow> string \<Rightarrow> bool" where
  "contains [] sub = (sub = [])"
| "contains (c # cs) sub = (startswith (c # cs) sub \<or> contains cs sub)"

text \<open>\<^verbatim>\<open>s.split(sep, 1)[0]\<close> for a one-character separator: the part before its first
  occurrence, the whole string when there is none.\<close>

definition split_first :: "char \<Rightarrow> string \<Rightarrow> string" where
  "split_first sep s = takeWhile (\<lambda>c. c \<noteq> sep) s"

text \<open>\<^verbatim>\<open>'%s' % n\<close> for a non-negative integer: its decimal digits.\<close>

definition digit_char :: "nat \<Rightarrow> char" where
  "digit_char d = ''0123456789'' ! d"

fun str_nat :: "nat \<Rightarrow> string" where
  "str_nat n = (if n < 10 then [digit_char n] else str_nat (n div 10) @ [digit_char (n mod 10)])"

text \<open>
  \<^verbatim>\<open>re.sub(r'^(.*?)/' + re.escape(newpath) + '$', r'\1', oldpath)\<close>.
  The pattern is anchored at both ends and its tail is the literal \<open>/newpath\<close>, so the
  only freedom is where the lazy group ends. \<^verbatim>\<open>.\<close> matches every character but a line
  feed. \<^verbatim>\<open>$\<close> matches at the end of the string and just before a line feed that ends it;
  the lazy group tries the shorter prefix first, which is the second of these. On a match
  the matched text is replaced by the group and what follows the match (the final line
  feed, if the match stopped before it) is kept; with no match the string is returned as
  it is.
\<close>

definition line_feed :: char where
  "line_feed = CHR 0x0A"

definition re_sub_prefix :: "string \<Rightarrow> string \<Rightarrow> string" where
  "re_sub_prefix newpath oldpath =
     (let tail = ''/'' @ newpath;
          n = length oldpath;
          k = length tail
      in if k + 1 \<le> n \<and> drop (n - (k + 1)) oldpath = tail @ [line_feed]
            \<and> line_feed \<notin> set (take (n - (k + 1)) oldpath)
         then take (n - (k + 1)) oldpath @ [line_feed]
         else if k \<le> n \<and> drop (n - k) oldpath = tail
            \<and> line_feed \<notin> set (take (n - k) oldpath)
         then take (n - k) oldpath
         else oldpath)"

subsection \<open>Data model\<close>

text \<open>
  A match dictionary maps variable names to values; a value may be Python's \<^verbatim>\<open>None\<close>
  (\<open>None\<close> here), which is why the code reads \<^verbatim>\<open>match.get('path_info') or ''\<close>. It is kept
  as an association list so that \<^verbatim>\<open>not match\<close> is decidable.
\<close>

type_synonym match_dict = "(string \<times> string option) list"

text \<open>The attributes of a route that the middleware reads, and \<^verbatim>\<open>id(route)\<close>.\<close>

record route =
  route_id :: nat
  redirect :: bool
  redirect_status :: string
  routepath :: string
  defaults :: match_dict

text \<open>\<^verbatim>\<open>URLGenerator(self.mapper, environ)\<close>: the generator keeps a reference to the mapper
  and to the environment of the request (there is one environment per call, so the
  reference to it is not written out).\<close>

datatype 'm url_generator = URLGenerator 'm

text \<open>The values an environment holds: strings, \<^verbatim>\<open>None\<close>, what the middleware publishes,
  and any other object.\<close>

datatype ('m, 'o) val =
    Str string
  | NoneV
  | RoutingArgs "'m url_generator" match_dict
  | RouteV route
  | UrlV "'m url_generator"
  | Obj 'o

type_synonym ('m, 'o) environ = "string \<rightharpoonup> ('m, 'o) val"

text \<open>
  The state a request runs in: the environment, whether \<^verbatim>\<open>self.mapper\<close> has an attribute
  \<^verbatim>\<open>environ\<close>, the calls of \<^verbatim>\<open>start_response\<close> made so far (status and headers), and
  everything else the collaborators keep (\<open>world\<close>).
\<close>

record ('m, 'o, 'w) state =
  environ :: "('m, 'o) environ"
  mapper_environ :: bool
  start_response_calls :: "(string \<times> (string \<times> string) list) list"
  world :: 'w

text \<open>
  \<open>TypeError k\<close>: the variable \<open>k\<close> is used as a string and is not one (Python raises
  \<^verbatim>\<open>TypeError\<close> or \<^verbatim>\<open>AttributeError\<close> there, depending on the object). \<open>Raised x\<close>: an
  exception of a collaborator, \<open>x\<close> naming it.
\<close>

datatype error = KeyError string | TypeError string | AttributeError string | Raised string

text \<open>The middleware object (\<^verbatim>\<open>self\<close>) without \<^verbatim>\<open>self.app\<close>, which is a collaborator.\<close>

record 'm middleware =
  mapper :: 'm
  singleton :: bool
  use_method_override :: bool
  path_info :: bool
  log_debug :: bool

type_synonym ('a, 'm, 'o, 'w) action =
  "('m, 'o, 'w) state \<Rightarrow> (error + 'a) \<times> ('m, 'o, 'w) state"

text \<open>
  The collaborators.
  \<^item> \<open>request_GET\<close>: \<^verbatim>\<open>req = Request(environ); req.errors = 'ignore'\<close> and the reading of
    \<^verbatim>\<open>req.GET\<close>, as the lookup \<^verbatim>\<open>req.GET[k]\<close> (\<open>None\<close> when \<^verbatim>\<open>k in req.GET\<close> is false);
  \<^item> \<open>request_POST\<close>: the same for \<^verbatim>\<open>req.POST\<close>;
  \<^item> \<open>config_match\<close>: \<^verbatim>\<open>config = request_config(); config.mapper = self.mapper;
    config.environ = environ\<close> and the reading of \<^verbatim>\<open>config.mapper_dict\<close> and \<^verbatim>\<open>config.route\<close>;
  \<^item> \<open>routematch\<close>: \<^verbatim>\<open>self.mapper.routematch(environ=environ)\<close>, \<open>None\<close> for a false result;
  \<^item> \<open>url_generator_init\<close>: what building \<^verbatim>\<open>URLGenerator(self.mapper, environ)\<close> does to
    the state (the object it builds is \<open>URLGenerator m\<close>);
  \<^item> \<open>url_call\<close>: the call \<^verbatim>\<open>url(route_name, **match)\<close> of a generator;
  \<^item> \<open>app\<close>: \<^verbatim>\<open>self.app(environ, start_response)\<close>, returning the chunks of the body;
  \<^item> \<open>str_upper\<close>: Python's \<^verbatim>\<open>str.upper\<close>.
\<close>

record ('m, 'o, 'w) collaborators =
  request_GET :: "(string \<rightharpoonup> string, 'm, 'o, 'w) action"
  request_POST :: "(string \<rightharpoonup> string, 'm, 'o, 'w) action"
  config_match :: "'m \<Rightarrow> (match_dict option \<times> route option, 'm, 'o, 'w) action"
  routematch :: "'m \<Rightarrow> ((match_dict option \<times> route option) option, 'm, 'o, 'w) action"
  url_generator_init :: "'m \<Rightarrow> (unit, 'm, 'o, 'w) action"
  url_call :: "'m url_generator \<Rightarrow> string \<Rightarrow> match_dict \<Rightarrow> (string, 'm, 'o, 'w) action"
  app :: "(string list, 'm, 'o, 'w) action"
  str_upper :: "string \<Rightarrow> string"

subsection \<open>Reading and writing the environment\<close>

definition get_item :: "('m, 'o) environ \<Rightarrow> string \<Rightarrow> error + ('m, 'o) val" where
  "get_item env k = (case env k of None \<Rightarrow> Inl (KeyError k) | Some v \<Rightarrow> Inr v)"

definition str_of :: "string \<Rightarrow> ('m, 'o) val \<Rightarrow> error + string" where
  "str_of k v = (case v of Str s \<Rightarrow> Inr s | _ \<Rightarrow> Inl (TypeError k))"

definition set_item ::
  "('m, 'o, 'w) state \<Rightarrow> string \<Rightarrow> ('m, 'o) val \<Rightarrow> ('m, 'o, 'w) state" where
  "set_item s k v = s\<lparr>environ := (environ s)(k \<mapsto> v)\<rparr>"

text \<open>Python's truth value: \<^verbatim>\<open>None\<close> and the empty string are false, a tuple of two and an
  object that defines no truth value of its own are true.\<close>

fun truthy :: "('m, 'o) val \<Rightarrow> bool" where
  "truthy (Str s) = (s \<noteq> [])"
| "truthy NoneV = False"
| "truthy (RoutingArgs g m) = True"
| "truthy (RouteV r) = True"
| "truthy (UrlV g) = True"
| "truthy (Obj x) = True"

text \<open>\<^verbatim>\<open>not match\<close> is true of \<^verbatim>\<open>None\<close> and of the empty dictionary.\<close>

definition truthy_match :: "match_dict option \<Rightarrow> bool" where
  "truthy_match match = (case match of None \<Rightarrow> False | Some d \<Rightarrow> d \<noteq> [])"

subsection \<open>\<^verbatim>\<open>is_form_post\<close> (lines 166 to 172)\<close>

definition is_form_post :: "('m, 'o) environ \<Rightarrow> error + bool" where
  "is_form_post env =
     (case (case env ''CONTENT_TYPE'' of
              None \<Rightarrow> Inr '''' | Some v \<Rightarrow> str_of ''CONTENT_TYPE'' v) of
        Inl e \<Rightarrow> Inl e
      | Inr ct \<Rightarrow>
          let content_type = lower ct;
              content_type = (if contains content_type '';''
                              then split_first (CHR '';'') content_type else content_type)
          in Inr (content_type = ''application/x-www-form-urlencoded''
                  \<or> content_type = ''multipart/form-data''))"

subsection \<open>Method override (lines 55 to 90)\<close>

text \<open>The body shared by the two branches: \<^verbatim>\<open>if '_method' in params: old_method =
  environ['REQUEST_METHOD']; environ['REQUEST_METHOD'] = params['_method'].upper()\<close>.
  The result is \<^verbatim>\<open>old_method\<close>, \<open>NoneV\<close> when it keeps its initial \<^verbatim>\<open>None\<close>.\<close>

definition apply_override ::
  "('m, 'o, 'w) collaborators \<Rightarrow> (string \<rightharpoonup> string)
     \<Rightarrow> (('m, 'o) val, 'm, 'o, 'w) action" where
  "apply_override deps params s =
     (case params ''_method'' of
        None \<Rightarrow> (Inr NoneV, s)
      | Some v \<Rightarrow>
          (case get_item (environ s) ''REQUEST_METHOD'' of
             Inl e \<Rightarrow> (Inl e, s)
           | Inr old_method \<Rightarrow>
               (Inr old_method, set_item s ''REQUEST_METHOD'' (Str (str_upper deps v)))))"

text \<open>Lines 61 to 68: \<^verbatim>\<open>try: qs = environ['QUERY_STRING'] except KeyError: qs = ''\<close>;
  \<^verbatim>\<open>'_method' in qs\<close> then needs a string.\<close>

definition query_string :: "('m, 'o) environ \<Rightarrow> error + string" where
  "query_string env =
     (case env ''QUERY_STRING'' of None \<Rightarrow> Inr '''' | Some v \<Rightarrow> str_of ''QUERY_STRING'' v)"

text \<open>Lines 80 to 90, the \<^verbatim>\<open>elif\<close> branch. \<^verbatim>\<open>req\<close> is always \<^verbatim>\<open>None\<close> there, so the request
  object is built.\<close>

definition form_override ::
  "('m, 'o, 'w) collaborators \<Rightarrow> (('m, 'o) val, 'm, 'o, 'w) action" where
  "form_override deps s =
     (case get_item (environ s) ''REQUEST_METHOD'' of
        Inl e \<Rightarrow> (Inl e, s)
      | Inr m \<Rightarrow>
          if m = Str ''POST'' then
            (case is_form_post (environ s) of
               Inl e \<Rightarrow> (Inl e, s)
             | Inr form \<Rightarrow>
                 if form then
                   (case request_POST deps s of
                      (Inl e, s1) \<Rightarrow> (Inl e, s1)
                    | (Inr params, s1) \<Rightarrow> apply_override deps params s1)
                 else (Inr NoneV, s))
          else (Inr NoneV, s))"

definition method_override ::
  "'m middleware \<Rightarrow> ('m, 'o, 'w) collaborators \<Rightarrow> (('m, 'o) val, 'm, 'o, 'w) action" where
  "method_override self deps s =
     (if use_method_override self then
        (case query_string (environ s) of
           Inl e \<Rightarrow> (Inl e, s)
         | Inr qs \<Rightarrow>
             if contains qs ''_method'' then
               (case request_GET deps s of
                  (Inl e, s1) \<Rightarrow> (Inl e, s1)
                | (Inr params, s1) \<Rightarrow> apply_override deps params s1)
             else form_override deps s)
      else (Inr NoneV, s))"

subsection \<open>Route matching and the restoring of the method (lines 94 to 112)\<close>

definition route_matching ::
  "'m middleware \<Rightarrow> ('m, 'o, 'w) collaborators
     \<Rightarrow> (match_dict option \<times> route option, 'm, 'o, 'w) action" where
  "route_matching self deps s =
     (if singleton self then config_match deps (mapper self) s
      else
        (case routematch deps (mapper self) s of
           (Inl e, s1) \<Rightarrow> (Inl e, s1)
         | (Inr None, s1) \<Rightarrow> (Inr (None, None), s1)
         | (Inr (Some (match, route)), s1) \<Rightarrow> (Inr (match, route), s1)))"

definition restore_method :: "('m, 'o) val \<Rightarrow> ('m, 'o, 'w) state \<Rightarrow> ('m, 'o, 'w) state" where
  "restore_method old_method s =
     (if truthy old_method then set_item s ''REQUEST_METHOD'' old_method else s)"

text \<open>Lines 55 to 112 as one step: override, match, restore.\<close>

definition resolve ::
  "'m middleware \<Rightarrow> ('m, 'o, 'w) collaborators
     \<Rightarrow> (match_dict option \<times> route option, 'm, 'o, 'w) action" where
  "resolve self deps s =
     (case method_override self deps s of
        (Inl e, s1) \<Rightarrow> (Inl e, s1)
      | (Inr old_method, s1) \<Rightarrow>
          (case route_matching self deps s1 of
             (Inl e, s2) \<Rightarrow> (Inl e, s2)
           | (Inr found, s2) \<Rightarrow> (Inr found, restore_method old_method s2)))"

subsection \<open>After the match (lines 114 to 163)\<close>

text \<open>\<^verbatim>\<open>"%s %s" % (environ['REQUEST_METHOD'], environ['PATH_INFO'])\<close>: the two reads can
  raise \<^verbatim>\<open>KeyError\<close>; the formatting accepts any value.\<close>

definition urlinfo :: "('m, 'o) environ \<Rightarrow> error + unit" where
  "urlinfo env =
     (case get_item env ''REQUEST_METHOD'' of
        Inl e \<Rightarrow> Inl e
      | Inr m \<Rightarrow> (case get_item env ''PATH_INFO'' of Inl e \<Rightarrow> Inl e | Inr p \<Rightarrow> Inr ()))"

text \<open>The debug logging of lines 114 to 126 writes nothing the model keeps, but it reads
  the environment and, after a match, \<^verbatim>\<open>route.routepath\<close>, which \<^verbatim>\<open>None\<close> does not have.\<close>

definition log_match ::
  "'m middleware \<Rightarrow> match_dict option \<Rightarrow> route option \<Rightarrow> ('m, 'o) environ \<Rightarrow> error + unit" where
  "log_match self match route env =
     (if \<not> truthy_match match then (if log_debug self then urlinfo env else Inr ())
      else if log_debug self then
        (case urlinfo env of
           Inl e \<Rightarrow> Inl e
         | Inr u \<Rightarrow> (case route of None \<Rightarrow> Inl (AttributeError ''routepath'') | Some r \<Rightarrow> Inr ()))
      else Inr ())"

text \<open>\<^verbatim>\<open>if not match: match = {}\<close>.\<close>

definition match_or_empty :: "match_dict option \<Rightarrow> match_dict" where
  "match_or_empty match =
     (if \<not> truthy_match match then [] else (case match of None \<Rightarrow> [] | Some d \<Rightarrow> d))"

text \<open>Lines 130 to 132, for the generator that line 128 built.\<close>

definition route_val :: "route option \<Rightarrow> ('m, 'o) val" where
  "route_val route = (case route of None \<Rightarrow> NoneV | Some r \<Rightarrow> RouteV r)"

definition publish ::
  "'m middleware \<Rightarrow> match_dict \<Rightarrow> route option \<Rightarrow> ('m, 'o, 'w) state \<Rightarrow> ('m, 'o, 'w) state" where
  "publish self match route s =
     (let url = URLGenerator (mapper self);
          s1 = set_item s ''wsgiorg.routing_args'' (RoutingArgs url match);
          s2 = set_item s1 ''routes.route'' (route_val route)
      in set_item s2 ''routes.url'' (UrlV url))"

text \<open>Lines 135 to 142, for the route \<open>r\<close> that matched.\<close>

definition redirect_name :: "route \<Rightarrow> string" where
  "redirect_name r = ''_redirect_'' @ str_nat (route_id r)"

definition redirect_headers :: "string \<Rightarrow> (string \<times> string) list" where
  "redirect_headers location =
     [(''Content-Type'', ''text/plain; charset=utf8''), (''Location'', location)]"

definition start_response ::
  "string \<Rightarrow> (string \<times> string) list \<Rightarrow> ('m, 'o, 'w) state \<Rightarrow> ('m, 'o, 'w) state" where
  "start_response status headers s =
     s\<lparr>start_response_calls := start_response_calls s @ [(status, headers)]\<rparr>"

definition redirect_response ::
  "'m middleware \<Rightarrow> ('m, 'o, 'w) collaborators \<Rightarrow> match_dict \<Rightarrow> route
     \<Rightarrow> (string list, 'm, 'o, 'w) action" where
  "redirect_response self deps match r s =
     (case url_call deps (URLGenerator (mapper self)) (redirect_name r) match s of
        (Inl e, s1) \<Rightarrow> (Inl e, s1)
      | (Inr location, s1) \<Rightarrow>
          (Inr [], start_response (redirect_status r) (redirect_headers location) s1))"

text \<open>Lines 146 to 153. \<^verbatim>\<open>environ['SCRIPT_NAME'] += ...\<close> reads \<^verbatim>\<open>SCRIPT_NAME\<close> before it
  evaluates the right-hand side, and both come after \<^verbatim>\<open>PATH_INFO\<close> has been written.\<close>

definition get_path_info :: "match_dict \<Rightarrow> string" where
  "get_path_info match =
     (case map_of match ''path_info'' of
        None \<Rightarrow> '''' | Some None \<Rightarrow> '''' | Some (Some v) \<Rightarrow> v)"

definition path_rewrite ::
  "'m middleware \<Rightarrow> match_dict \<Rightarrow> (unit, 'm, 'o, 'w) action" where
  "path_rewrite self match s =
     (if path_info self \<and> map_of match ''path_info'' \<noteq> None then
        (case get_item (environ s) ''PATH_INFO'' of
           Inl e \<Rightarrow> (Inl e, s)
         | Inr oldpath \<Rightarrow>
             let newpath = get_path_info match;
                 s1 = set_item s ''PATH_INFO''
                        (Str (if startswith newpath ''/'' then newpath else ''/'' @ newpath))
             in (case get_item (environ s1) ''SCRIPT_NAME'' of
                   Inl e \<Rightarrow> (Inl e, s1)
                 | Inr script_name \<Rightarrow>
                     (case str_of ''PATH_INFO'' oldpath of
                        Inl e \<Rightarrow> (Inl e, s1)
                      | Inr old \<Rightarrow>
                          (case str_of ''SCRIPT_NAME'' script_name of
                             Inl e \<Rightarrow> (Inl e, s1)
                           | Inr script \<Rightarrow>
                               (Inr (), set_item s1 ''SCRIPT_NAME''
                                          (Str (script @ re_sub_prefix newpath old)))))))
      else (Inr (), s))"

text \<open>Lines 156 to 163. \<^verbatim>\<open>del self.mapper.environ\<close> removes the attribute when it is
  there and raises \<^verbatim>\<open>AttributeError\<close>, which is caught, when it is not. An exception of
  the application leaves the function at line 156.\<close>

definition del_mapper_environ :: "('m, 'o, 'w) state \<Rightarrow> ('m, 'o, 'w) state" where
  "del_mapper_environ s = (if mapper_environ s then s\<lparr>mapper_environ := False\<rparr> else s)"

definition run_app ::
  "('m, 'o, 'w) collaborators \<Rightarrow> (string list, 'm, 'o, 'w) action" where
  "run_app deps s =
     (case app deps s of
        (Inl e, s1) \<Rightarrow> (Inl e, s1)
      | (Inr response, s1) \<Rightarrow> (Inr response, del_mapper_environ s1))"

text \<open>Lines 146 to 163: what follows when the request is not answered by a redirect.\<close>

definition serve ::
  "'m middleware \<Rightarrow> ('m, 'o, 'w) collaborators \<Rightarrow> match_dict
     \<Rightarrow> (string list, 'm, 'o, 'w) action" where
  "serve self deps match s =
     (case path_rewrite self match s of
        (Inl e, s1) \<Rightarrow> (Inl e, s1)
      | (Inr u, s1) \<Rightarrow> run_app deps s1)"

text \<open>\<^verbatim>\<open>route and route.redirect\<close>, which is false of \<^verbatim>\<open>None\<close>.\<close>

definition is_redirect :: "route option \<Rightarrow> bool" where
  "is_redirect route = (case route of None \<Rightarrow> False | Some r \<Rightarrow> redirect r)"

text \<open>Lines 114 to 163.\<close>

definition dispatch ::
  "'m middleware \<Rightarrow> ('m, 'o, 'w) collaborators \<Rightarrow> match_dict option \<Rightarrow> route option
     \<Rightarrow> (string list, 'm, 'o, 'w) action" where
  "dispatch self deps match0 route s =
     (case log_match self match0 route (environ s) of
        Inl e \<Rightarrow> (Inl e, s)
      | Inr u \<Rightarrow>
          (case url_generator_init deps (mapper self) s of
             (Inl e, s0) \<Rightarrow> (Inl e, s0)
           | (Inr u, s0) \<Rightarrow>
               let match = match_or_empty match0;
                   s1 = publish self match route s0
               in (case route of
                     None \<Rightarrow> serve self deps match s1
                   | Some r \<Rightarrow>
                       if redirect r then redirect_response self deps match r s1
                       else serve self deps match s1)))"

subsection \<open>\<^verbatim>\<open>RoutesMiddleware.__call__\<close> (lines 52 to 163)\<close>

definition call ::
  "'m middleware \<Rightarrow> ('m, 'o, 'w) collaborators \<Rightarrow> (string list, 'm, 'o, 'w) action" where
  "call self deps s =
     (case resolve self deps s of
        (Inl e, s1) \<Rightarrow> (Inl e, s1)
      | (Inr (match, route), s1) \<Rightarrow> dispatch self deps match route s1)"

subsection \<open>The specification's wording of the prefix\<close>

text \<open>
  The specification describes the extension of the mount prefix as the original path with
  the remainder, plus the \<open>/\<close> that separates it, stripped from its end. This is that
  description, to be compared with \<open>re_sub_prefix\<close>, which is what the code computes.
\<close>

definition strip_remainder :: "string \<Rightarrow> string \<Rightarrow> string" where
  "strip_remainder remainder path =
     (let tail = ''/'' @ remainder
      in if length tail \<le> length path \<and> drop (length path - length tail) path = tail
         then take (length path - length tail) path else path)"

subsection \<open>Collaborators that leave a key of the environment alone\<close>

text \<open>\<open>preserves k f\<close>: whatever the state, \<open>f\<close> leaves the environment's entry for \<open>k\<close>
  as it found it (also when it raises).\<close>

definition preserves :: "string \<Rightarrow> ('a, 'm, 'o, 'w) action \<Rightarrow> bool" where
  "preserves k f = (\<forall>s. environ (snd (f s)) k = environ s k)"

definition collaborators_preserve :: "string \<Rightarrow> ('m, 'o, 'w) collaborators \<Rightarrow> bool" where
  "collaborators_preserve k deps =
     (preserves k (request_GET deps) \<and> preserves k (request_POST deps)
      \<and> (\<forall>m. preserves k (config_match deps m)) \<and> (\<forall>m. preserves k (routematch deps m))
      \<and> (\<forall>m. preserves k (url_generator_init deps m))
      \<and> (\<forall>g name match. preserves k (url_call deps g name match))
      \<and> preserves k (app deps))"

text \<open>The three keys under which the middleware publishes.\<close>

definition published_key :: "string \<Rightarrow> bool" where
  "published_key k = (k = ''wsgiorg.routing_args'' \<or> k = ''routes.route'' \<or> k = ''routes.url'')"

text \<open>The condition under which lines 147 to 153 run: the request is not answered by a
  redirect (line 134), rewriting is enabled and the variables have the key (line 146).\<close>

definition rewrite_branch :: "'m middleware \<Rightarrow> match_dict option \<Rightarrow> route option \<Rightarrow> bool" where
  "rewrite_branch self match route =
     (\<not> is_redirect route \<and> path_info self
      \<and> map_of (match_or_empty match) ''path_info'' \<noteq> None)"

subsection \<open>A concrete instance\<close>

text \<open>
  Concrete collaborators, on which the theorems below are instantiated: a parser that
  splits \<open>k=v\<close> pairs at \<open>&\<close> (the form body is kept as a string under \<^verbatim>\<open>wsgi.input\<close>), a
  matcher that answers with a given result and binds \<^verbatim>\<open>mapper.environ\<close>, a generator
  whose building changes nothing, an application that answers \<open>200 OK\<close> and one that
  raises.
\<close>

text \<open>\<open>ascii_upper\<close> stands in for \<^verbatim>\<open>str.upper\<close> in the examples: it agrees with it on ASCII
  strings.\<close>

definition ascii_upper_char :: "char \<Rightarrow> char" where
  "ascii_upper_char c =
     (case map_of (zip ascii_lowercase ascii_uppercase) c of Some u \<Rightarrow> u | None \<Rightarrow> c)"

definition ascii_upper :: "string \<Rightarrow> string" where
  "ascii_upper s = map ascii_upper_char s"

fun split_on :: "char \<Rightarrow> string \<Rightarrow> string list" where
  "split_on sep [] = [[]]"
| "split_on sep (c # cs) =
     (if c = sep then [] # split_on sep cs
      else (case split_on sep cs of [] \<Rightarrow> [[c]] | w # ws \<Rightarrow> (c # w) # ws))"

definition parse_pair :: "string \<Rightarrow> string \<times> string" where
  "parse_pair p = (takeWhile (\<lambda>c. c \<noteq> CHR ''='') p, drop 1 (dropWhile (\<lambda>c. c \<noteq> CHR ''='') p))"

definition parse_pairs :: "string \<Rightarrow> string \<rightharpoonup> string" where
  "parse_pairs q = map_of (map parse_pair (split_on (CHR ''&'') q))"

definition str_or_empty :: "(unit, unit) val option \<Rightarrow> string" where
  "str_or_empty v = (case v of Some (Str s) \<Rightarrow> s | _ \<Rightarrow> '''')"

definition demo_GET :: "(string \<rightharpoonup> string, unit, unit, unit) action" where
  "demo_GET s = (Inr (parse_pairs (str_or_empty (environ s ''QUERY_STRING''))), s)"

definition demo_POST :: "(string \<rightharpoonup> string, unit, unit, unit) action" where
  "demo_POST s = (Inr (parse_pairs (str_or_empty (environ s ''wsgi.input''))), s)"

definition demo_config_match ::
  "(match_dict \<times> route) option \<Rightarrow> unit
     \<Rightarrow> (match_dict option \<times> route option, unit, unit, unit) action" where
  "demo_config_match found m s =
     (Inr (case found of None \<Rightarrow> (None, None) | Some (d, r) \<Rightarrow> (Some d, Some r)),
      s\<lparr>mapper_environ := True\<rparr>)"

definition demo_routematch ::
  "(match_dict \<times> route) option \<Rightarrow> unit
     \<Rightarrow> ((match_dict option \<times> route option) option, unit, unit, unit) action" where
  "demo_routematch found m s =
     (Inr (case found of None \<Rightarrow> None | Some (d, r) \<Rightarrow> Some (Some d, Some r)), s)"

definition demo_init :: "unit \<Rightarrow> (unit, unit, unit, unit) action" where
  "demo_init m s = (Inr (), s)"

definition demo_url ::
  "unit url_generator \<Rightarrow> string \<Rightarrow> match_dict \<Rightarrow> (string, unit, unit, unit) action" where
  "demo_url g name match s = (Inr (''/to/'' @ name), s)"

definition demo_app :: "(string list, unit, unit, unit) action" where
  "demo_app s = (Inr [''ok''], start_response ''200 OK'' [] s)"

definition failing_app :: "(string list, unit, unit, unit) action" where
  "failing_app s = (Inl (Raised ''boom''), s)"

definition demo_deps :: "(match_dict \<times> route) option \<Rightarrow> (unit, unit, unit) collaborators" where
  "demo_deps found =
     \<lparr>request_GET = demo_GET, request_POST = demo_POST,
      config_match = demo_config_match found, routematch = demo_routematch found,
      url_generator_init = demo_init, url_call = demo_url, app = demo_app,
      str_upper = ascii_upper\<rparr>"

definition failing_deps :: "(match_dict \<times> route) option \<Rightarrow> (unit, unit, unit) collaborators" where
  "failing_deps found = (demo_deps found)\<lparr>app := failing_app\<rparr>"

definition demo_self :: "unit middleware" where
  "demo_self =
     \<lparr>mapper = (), singleton = True, use_method_override = True, path_info = True,
      log_debug = True\<rparr>"

definition demo_environ :: "string \<Rightarrow> string \<Rightarrow> string \<Rightarrow> (unit, unit) environ" where
  "demo_environ m p q =
     [''REQUEST_METHOD'' \<mapsto> Str m, ''SCRIPT_NAME'' \<mapsto> Str '''', ''PATH_INFO'' \<mapsto> Str p,
      ''QUERY_STRING'' \<mapsto> Str q]"

definition demo_request :: "(unit, unit) environ \<Rightarrow> (unit, unit, unit) state" where
  "demo_request env =
     \<lparr>environ = env, mapper_environ = False, start_response_calls = [], world = ()\<rparr>"

definition blog_route :: route where
  "blog_route =
     \<lparr>route_id = 4242, redirect = False, redirect_status = '''', routepath = ''blog/*path_info'',
      defaults = [(''controller'', Some ''blog'')]\<rparr>"

definition moved_route :: route where
  "moved_route =
     \<lparr>route_id = 7, redirect = True, redirect_status = ''302 Found'', routepath = ''old/:id'',
      defaults = []\<rparr>"

text \<open>A route with a variable before the remainder.\<close>

definition section_route :: route where
  "section_route =
     \<lparr>route_id = 99, redirect = False, redirect_status = '''',
      routepath = '':section/*path_info'', defaults = []\<rparr>"

text \<open>The same middleware in the direct mode.\<close>

definition demo_direct :: "unit middleware" where
  "demo_direct = demo_self\<lparr>singleton := False\<rparr>"

text \<open>A matcher that reports the method it saw as a variable of the match.\<close>

definition observing_match ::
  "unit \<Rightarrow> (match_dict option \<times> route option, unit, unit, unit) action" where
  "observing_match m s =
     (Inr (Some [(''seen'', Some (str_or_empty (environ s ''REQUEST_METHOD'')))], Some blog_route),
      s\<lparr>mapper_environ := True\<rparr>)"

definition observing_deps :: "(unit, unit, unit) collaborators" where
  "observing_deps = (demo_deps None)\<lparr>config_match := observing_match\<rparr>"

text \<open>A form post: the body is \<open>_method=delete\<close>.\<close>

definition form_environ :: "string \<Rightarrow> string \<Rightarrow> (unit, unit) environ" where
  "form_environ content_type q =
     (demo_environ ''POST'' ''/items/3'' q)
       (''CONTENT_TYPE'' \<mapsto> Str content_type, ''wsgi.input'' \<mapsto> Str ''_method=delete'')"

text \<open>A request whose environment has no \<^verbatim>\<open>QUERY_STRING\<close>.\<close>

definition bare_environ :: "(unit, unit) environ" where
  "bare_environ = [''REQUEST_METHOD'' \<mapsto> Str ''GET'', ''PATH_INFO'' \<mapsto> Str ''/x'']"

text \<open>
  Collaborators that write to the environment: a query parser that keeps an attribute of
  the request object under \<open>webob.adhoc_attrs\<close>, which is where webob puts the \<open>errors\<close> of
  \<^verbatim>\<open>req.errors = 'ignore'\<close>, and a generator whose building gives the environment an empty
  \<^verbatim>\<open>SCRIPT_NAME\<close> when it has none.
\<close>

definition storing_GET :: "(string \<rightharpoonup> string, unit, unit, unit) action" where
  "storing_GET s =
     (Inr (parse_pairs (str_or_empty (environ s ''QUERY_STRING''))),
      set_item s ''webob.adhoc_attrs'' (Obj ()))"

definition defaulting_init :: "unit \<Rightarrow> (unit, unit, unit, unit) action" where
  "defaulting_init m s =
     (Inr (), if environ s ''SCRIPT_NAME'' = None then set_item s ''SCRIPT_NAME'' (Str '''') else s)"

definition storing_deps :: "(unit, unit, unit) collaborators" where
  "storing_deps =
     (demo_deps None)\<lparr>request_GET := storing_GET, url_generator_init := defaulting_init\<rparr>"

definition query_environ :: "(unit, unit) environ" where
  "query_environ = bare_environ(''QUERY_STRING'' \<mapsto> Str ''_method=put'')"

section \<open>Properties\<close>

subsection \<open>Unfolding the composition\<close>

lemmas demo_defs = demo_deps_def failing_deps_def demo_self_def demo_environ_def demo_request_def
  demo_GET_def demo_POST_def demo_config_match_def demo_routematch_def demo_init_def demo_url_def
  demo_app_def
  failing_app_def parse_pairs_def parse_pair_def str_or_empty_def blog_route_def moved_route_def

lemmas step_defs = resolve_def method_override_def query_string_def form_override_def
  route_matching_def restore_method_def
  log_match_def urlinfo_def match_or_empty_def truthy_match_def publish_def route_val_def
  path_rewrite_def del_mapper_environ_def redirect_name_def redirect_headers_def
  start_response_def get_item_def set_item_def str_of_def apply_override_def is_form_post_def
  get_path_info_def is_redirect_def

lemmas string_defs = ascii_upper_def ascii_upper_char_def lower_def lower_char_def ascii_lowercase_def
  ascii_uppercase_def split_first_def digit_char_def re_sub_prefix_def line_feed_def

lemma call_dispatch:
  "resolve self deps s = (Inr (match, route), s1) \<Longrightarrow>
   call self deps s = dispatch self deps match route s1"
  by (simp add: call_def)

lemma dispatch_serve:
  assumes "log_match self match route (environ s) = Inr ()"
      and "url_generator_init deps (mapper self) s = (Inr (), s0)"
      and "\<not> is_redirect route"
  shows "dispatch self deps match route s =
         serve self deps (match_or_empty match) (publish self (match_or_empty match) route s0)"
  using assms by (simp add: dispatch_def is_redirect_def Let_def split: option.splits)

lemma dispatch_redirect:
  assumes "log_match self match (Some r) (environ s) = Inr ()"
      and "url_generator_init deps (mapper self) s = (Inr (), s0)"
      and "redirect r"
  shows "dispatch self deps match (Some r) s =
         redirect_response self deps (match_or_empty match) r
           (publish self (match_or_empty match) (Some r) s0)"
  using assms by (simp add: dispatch_def Let_def)

lemma serve_run_app:
  "path_rewrite self match s = (Inr (), s1) \<Longrightarrow> serve self deps match s = run_app deps s1"
  by (simp add: serve_def)

subsection \<open>Strings\<close>

lemma startswith_iff: "startswith s p \<longleftrightarrow> (\<exists>suf. s = p @ suf)"
  by (induction s p rule: startswith.induct) auto

lemma contains_iff: "contains s sub \<longleftrightarrow> (\<exists>pre suf. s = pre @ sub @ suf)"
proof (induction s)
  case Nil
  then show ?case by simp
next
  case (Cons c cs)
  show ?case
  proof
    assume "contains (c # cs) sub"
    then consider "startswith (c # cs) sub" | "contains cs sub" by auto
    then show "\<exists>pre suf. c # cs = pre @ sub @ suf"
    proof cases
      case 1
      then obtain suf where "c # cs = sub @ suf" by (auto simp: startswith_iff)
      then have "c # cs = [] @ sub @ suf" by simp
      then show ?thesis by blast
    next
      case 2
      then obtain pre suf where "cs = pre @ sub @ suf" using Cons.IH by blast
      then have "c # cs = (c # pre) @ sub @ suf" by simp
      then show ?thesis by blast
    qed
  next
    assume "\<exists>pre suf. c # cs = pre @ sub @ suf"
    then obtain pre suf where eq: "c # cs = pre @ sub @ suf" by blast
    show "contains (c # cs) sub"
    proof (cases pre)
      case Nil
      with eq have "startswith (c # cs) sub" by (auto simp: startswith_iff)
      then show ?thesis by simp
    next
      case (Cons p ps)
      with eq have "cs = ps @ sub @ suf" by simp
      then have "contains cs sub" using Cons.IH by blast
      then show ?thesis by simp
    qed
  qed
qed

lemma strip_remainder_append: "strip_remainder remainder (p @ ''/'' @ remainder) = p"
  by (simp add: strip_remainder_def)

lemma rotate_last: "x # xs = xs @ [y] \<Longrightarrow> y = x"
  by (induction xs arbitrary: x) auto

lemma re_sub_prefix_strip:
  assumes "line_feed \<notin> set (strip_remainder newpath oldpath)"
  shows "re_sub_prefix newpath oldpath = strip_remainder newpath oldpath"
proof -
  let ?tail = "''/'' @ newpath"
  let ?n = "length oldpath"
  let ?k = "length ?tail"
  show ?thesis
  proof (cases "?k \<le> ?n \<and> drop (?n - ?k) oldpath = ?tail")
    case True
    then have strip: "strip_remainder newpath oldpath = take (?n - ?k) oldpath"
      by (simp add: strip_remainder_def)
    with assms have lf: "line_feed \<notin> set (take (?n - ?k) oldpath)"
      by simp
    have "\<not> (?k + 1 \<le> ?n \<and> drop (?n - (?k + 1)) oldpath = ?tail @ [line_feed])"
    proof
      assume a: "?k + 1 \<le> ?n \<and> drop (?n - (?k + 1)) oldpath = ?tail @ [line_feed]"
      let ?i = "?n - (?k + 1)"
      have i: "?i < ?n" "Suc ?i = ?n - ?k" "?i < ?n - ?k"
        using a by auto
      have "drop ?i oldpath = oldpath ! ?i # drop (Suc ?i) oldpath"
        using i(1) by (simp add: Cons_nth_drop_Suc)
      with a True i(2) have "oldpath ! ?i # ?tail = ?tail @ [line_feed]"
        by simp
      then have "line_feed = oldpath ! ?i"
        by (rule rotate_last)
      moreover have "oldpath ! ?i \<in> set (take (?n - ?k) oldpath)"
        using i(1,3) by (metis in_set_conv_nth length_take min_less_iff_conj nth_take)
      ultimately show False
        using lf by simp
    qed
    with True lf strip show ?thesis
      unfolding re_sub_prefix_def Let_def by auto
  next
    case False
    then have strip: "strip_remainder newpath oldpath = oldpath"
      by (auto simp: strip_remainder_def)
    with assms have lf: "line_feed \<notin> set oldpath"
      by simp
    have "\<not> (?k + 1 \<le> ?n \<and> drop (?n - (?k + 1)) oldpath = ?tail @ [line_feed])"
    proof
      assume a: "?k + 1 \<le> ?n \<and> drop (?n - (?k + 1)) oldpath = ?tail @ [line_feed]"
      then have "line_feed \<in> set (drop (?n - (?k + 1)) oldpath)" by simp
      then have "line_feed \<in> set oldpath" by (rule in_set_dropD)
      with lf show False by simp
    qed
    with False strip show ?thesis
      unfolding re_sub_prefix_def Let_def by auto
  qed
qed

subsection \<open>Cleaning up after the application\<close>

text \<open>
  Claim C7, as the code has it. For every request that reaches the wrapped application
  (the match was resolved, the logging and the building of the generator raised nothing,
  the route is not a redirect and the path rewriting raised nothing), when the application
  returns normally the response is returned as it is and \<^verbatim>\<open>mapper.environ\<close> is unbound
  afterwards, whether or not it was bound when the application returned (\<open>s3\<close> is
  arbitrary): a missing binding raises nothing.
\<close>

theorem app_return_clears_binding:
  assumes "resolve self deps s = (Inr (match, route), s1)"
      and "log_match self match route (environ s1) = Inr ()"
      and "url_generator_init deps (mapper self) s1 = (Inr (), s0)"
      and "\<not> is_redirect route"
      and "path_rewrite self (match_or_empty match)
             (publish self (match_or_empty match) route s0) = (Inr (), s2)"
      and "app deps s2 = (Inr response, s3)"
  shows "call self deps s = (Inr response, s3\<lparr>mapper_environ := False\<rparr>)"
proof -
  have "call self deps s = run_app deps s2"
    using assms(1-5) by (simp add: call_dispatch dispatch_serve serve_run_app)
  also have "\<dots> = (Inr response, del_mapper_environ s3)"
    using assms(6) by (simp add: run_app_def)
  also have "del_mapper_environ s3 = s3\<lparr>mapper_environ := False\<rparr>"
    by (simp add: del_mapper_environ_def)
  finally show ?thesis .
qed

text \<open>An instance: a \<open>GET /x\<close> that no route matches, in the shared mode.\<close>

theorem app_return_clears_binding_witness:
  "call demo_self (demo_deps None) (demo_request (demo_environ ''GET'' ''/x'' ''''))
   = (Inr [''ok''],
      (start_response ''200 OK'' []
         (publish demo_self [] None
            (demo_request (demo_environ ''GET'' ''/x'' ''''))))\<lparr>mapper_environ := False\<rparr>)"
proof -
  let ?s = "demo_request (demo_environ ''GET'' ''/x'' '''')"
  let ?s1 = "?s\<lparr>mapper_environ := True\<rparr>"
  let ?s2 = "publish demo_self [] None ?s1"
  have 1: "resolve demo_self (demo_deps None) ?s = (Inr (None, None), ?s1)"
    by (simp add: step_defs demo_defs)
  have 2: "log_match demo_self None None (environ ?s1) = Inr ()"
    by (simp add: step_defs demo_defs)
  have 3: "url_generator_init (demo_deps None) (mapper demo_self) ?s1 = (Inr (), ?s1)"
    by (simp add: demo_deps_def demo_init_def)
  have 4: "\<not> is_redirect None"
    by (simp add: is_redirect_def)
  have 5: "path_rewrite demo_self (match_or_empty None)
             (publish demo_self (match_or_empty None) None ?s1) = (Inr (), ?s2)"
    by (simp add: path_rewrite_def match_or_empty_def truthy_match_def)
  have 6: "app (demo_deps None) ?s2 = (Inr [''ok''], start_response ''200 OK'' [] ?s2)"
    by (simp add: demo_deps_def demo_app_def)
  show ?thesis
    using app_return_clears_binding [OF 1 2 3 4 5 6]
    by (simp add: publish_def set_item_def start_response_def Let_def)
qed

text \<open>
  When the application raises, the exception leaves \<^verbatim>\<open>__call__\<close> at line 156, before
  the \<^verbatim>\<open>del\<close>: the binding that the matcher made is still there.
\<close>

theorem app_failure_keeps_binding:
  "call demo_self (failing_deps None) (demo_request (demo_environ ''GET'' ''/x'' ''''))
   = (Inl (Raised ''boom''),
      (publish demo_self [] None
         (demo_request (demo_environ ''GET'' ''/x'' '''')))\<lparr>mapper_environ := True\<rparr>)"
  by (simp add: call_def dispatch_def serve_def run_app_def step_defs demo_defs Let_def)

subsection \<open>Rewriting the path\<close>

lemma match_or_empty_key:
  "map_of match ''path_info'' \<noteq> None \<Longrightarrow> match_or_empty (Some match) = match"
  by (auto simp: match_or_empty_def truthy_match_def)

lemma log_match_key:
  "map_of match ''path_info'' \<noteq> None \<Longrightarrow> truthy_match (Some match)"
  by (auto simp: truthy_match_def)

lemma environ_publish:
  "environ (publish self match route s) =
     (environ s)(''wsgiorg.routing_args'' \<mapsto> RoutingArgs (URLGenerator (mapper self)) match,
                 ''routes.route'' \<mapsto> route_val route,
                 ''routes.url'' \<mapsto> UrlV (URLGenerator (mapper self)))"
  by (simp add: publish_def set_item_def Let_def)

lemma path_rewrite_strings:
  assumes "path_info self"
      and "map_of match ''path_info'' \<noteq> None"
      and "environ s ''PATH_INFO'' = Some (Str oldpath)"
      and "environ s ''SCRIPT_NAME'' = Some (Str script)"
  shows "path_rewrite self match s =
         (Inr (),
          set_item
            (set_item s ''PATH_INFO''
               (Str (if startswith (get_path_info match) ''/'' then get_path_info match
                     else ''/'' @ get_path_info match)))
            ''SCRIPT_NAME'' (Str (script @ re_sub_prefix (get_path_info match) oldpath)))"
  using assms by (simp add: path_rewrite_def get_item_def set_item_def str_of_def Let_def)

text \<open>
  Where the code and the specification agree. Path rewriting is enabled, a route that is
  not a redirect matched and the matched variables have the key \<open>path_info\<close>; the
  environment in which the generator was built holds the original path and the mount
  prefix as strings, and the part of the original path that is left when \<open>/\<close> and the
  remainder are stripped from its end has no line feed in it (the remainder itself may
  have). Then the application is run in the published environment with \<^verbatim>\<open>PATH_INFO\<close> set
  to the remainder (\<^verbatim>\<open>None\<close> and the empty string both count as empty), with a \<open>/\<close> put in
  front unless it starts with one, and with \<^verbatim>\<open>SCRIPT_NAME\<close> extended by the original path
  stripped of \<open>/\<close> and the remainder at its end.
\<close>

theorem path_remainder_rewrite:
  assumes "resolve self deps s = (Inr (Some match, Some r), s1)"
      and "\<not> redirect r"
      and "log_match self (Some match) (Some r) (environ s1) = Inr ()"
      and "url_generator_init deps (mapper self) s1 = (Inr (), s0)"
      and "path_info self"
      and "map_of match ''path_info'' \<noteq> None"
      and "environ s0 ''PATH_INFO'' = Some (Str oldpath)"
      and "environ s0 ''SCRIPT_NAME'' = Some (Str script)"
      and "line_feed \<notin> set (strip_remainder (get_path_info match) oldpath)"
  shows "call self deps s =
         run_app deps
           (set_item
              (set_item (publish self match (Some r) s0) ''PATH_INFO''
                 (Str (if startswith (get_path_info match) ''/'' then get_path_info match
                       else ''/'' @ get_path_info match)))
              ''SCRIPT_NAME'' (Str (script @ strip_remainder (get_path_info match) oldpath)))"
proof -
  let ?sp = "publish self match (Some r) s0"
  have "call self deps s = dispatch self deps (Some match) (Some r) s1"
    using assms(1) by (rule call_dispatch)
  also have "\<dots> = serve self deps match ?sp"
    using assms(2,3,4,6) by (simp add: dispatch_serve is_redirect_def match_or_empty_key)
  also have "\<dots> = run_app deps
           (set_item
              (set_item ?sp ''PATH_INFO''
                 (Str (if startswith (get_path_info match) ''/'' then get_path_info match
                       else ''/'' @ get_path_info match)))
              ''SCRIPT_NAME'' (Str (script @ re_sub_prefix (get_path_info match) oldpath)))"
    using assms(5-8) by (simp add: serve_run_app path_rewrite_strings environ_publish)
  finally show ?thesis
    using assms(9) by (simp add: re_sub_prefix_strip)
qed

text \<open>The example of the specification: \<open>/blog/a/b\<close> with the remainder \<open>a/b\<close> gives the
  path \<open>/a/b\<close> and extends the empty prefix by \<open>/blog\<close>.\<close>

theorem path_remainder_rewrite_witness:
  "environ (snd (call demo_self (demo_deps (Some ([(''path_info'', Some ''a/b'')], blog_route)))
                  (demo_request (demo_environ ''GET'' ''/blog/a/b'' ''''))))
     ''PATH_INFO'' = Some (Str ''/a/b'')
   \<and> environ (snd (call demo_self (demo_deps (Some ([(''path_info'', Some ''a/b'')], blog_route)))
                  (demo_request (demo_environ ''GET'' ''/blog/a/b'' ''''))))
     ''SCRIPT_NAME'' = Some (Str ('''' @ ''/blog''))"
proof -
  let ?match = "[(''path_info'', Some ''a/b'')]"
  let ?deps = "demo_deps (Some (?match, blog_route))"
  let ?s = "demo_request (demo_environ ''GET'' ''/blog/a/b'' '''')"
  let ?s1 = "?s\<lparr>mapper_environ := True\<rparr>"
  have 1: "resolve demo_self ?deps ?s = (Inr (Some ?match, Some blog_route), ?s1)"
    by (simp add: step_defs demo_defs)
  have 2: "\<not> redirect blog_route"
    by (simp add: blog_route_def)
  have 3: "log_match demo_self (Some ?match) (Some blog_route) (environ ?s1) = Inr ()"
    by (simp add: step_defs demo_defs)
  have 4: "url_generator_init ?deps (mapper demo_self) ?s1 = (Inr (), ?s1)"
    by (simp add: demo_deps_def demo_init_def)
  have 5: "path_info demo_self"
    by (simp add: demo_self_def)
  have 6: "map_of ?match ''path_info'' \<noteq> None"
    by simp
  have 7: "environ ?s1 ''PATH_INFO'' = Some (Str ''/blog/a/b'')"
    by (simp add: demo_defs)
  have 8: "environ ?s1 ''SCRIPT_NAME'' = Some (Str '''')"
    by (simp add: demo_defs)
  have 9: "line_feed \<notin> set (strip_remainder (get_path_info ?match) ''/blog/a/b'')"
    by (simp add: get_path_info_def strip_remainder_def line_feed_def)
  show ?thesis
    using path_remainder_rewrite [OF 1 2 3 4 5 6 7 8 9]
    by (simp add: run_app_def demo_deps_def demo_app_def start_response_def
        del_mapper_environ_def set_item_def get_path_info_def strip_remainder_def)
qed

text \<open>
  Claim C5 fails on the code at this input: the path \<open>/a\<close>, line feed, \<open>b/x\<close> (the request
  \<open>GET /a%0Ab/x\<close>) matched by \<open>:section/*path_info\<close> with the remainder \<open>x\<close>. Line 152
  strips \<open>/\<close> and the remainder with a pattern whose \<^verbatim>\<open>.\<close> stops at a line feed, so the
  pattern does not match and the prefix is extended by the whole original path; the part
  of the path before \<open>/x\<close>, which the claim names, is \<open>/a\<close>, line feed, \<open>b\<close>.
\<close>

theorem path_remainder_line_feed:
  "environ (snd (call demo_self
                   (demo_deps (Some ([(''section'', Some (''a'' @ [line_feed] @ ''b'')),
                                      (''path_info'', Some ''x'')], section_route)))
                   (demo_request (demo_environ ''GET'' (''/a'' @ [line_feed] @ ''b/x'') ''''))))
     ''SCRIPT_NAME'' = Some (Str ('''' @ ''/a'' @ [line_feed] @ ''b/x''))
   \<and> strip_remainder ''x'' (''/a'' @ [line_feed] @ ''b/x'') = ''/a'' @ [line_feed] @ ''b''"
  by (simp add: call_def dispatch_def serve_def run_app_def step_defs demo_defs section_route_def
      strip_remainder_def string_defs Let_def)


subsection \<open>What each step leaves unchanged\<close>

lemma preservesD: "preserves k f \<Longrightarrow> environ (snd (f s)) k = environ s k"
  by (simp add: preserves_def)

lemma set_item_other: "k \<noteq> k' \<Longrightarrow> environ (set_item s k' v) k = environ s k"
  by (simp add: set_item_def)

lemma publish_frame:
  assumes "k \<noteq> ''wsgiorg.routing_args''" "k \<noteq> ''routes.route''" "k \<noteq> ''routes.url''"
  shows "environ (publish self match route s) k = environ s k"
  using assms by (simp add: environ_publish)

lemma path_rewrite_frame:
  assumes "k \<noteq> ''PATH_INFO''" "k \<noteq> ''SCRIPT_NAME''"
  shows "environ (snd (path_rewrite self match s)) k = environ s k"
  using assms
  by (simp add: path_rewrite_def set_item_def Let_def split: sum.splits)

lemma path_rewrite_off:
  "\<not> (path_info self \<and> map_of match ''path_info'' \<noteq> None) \<Longrightarrow>
   path_rewrite self match s = (Inr (), s)"
  by (auto simp: path_rewrite_def)

lemma run_app_frame:
  assumes "preserves k (app deps)"
  shows "environ (snd (run_app deps s)) k = environ s k"
proof -
  obtain r s1 where a: "app deps s = (r, s1)" by (cases "app deps s")
  have "environ s1 k = environ s k"
    using preservesD [OF assms, of s] a by simp
  then show ?thesis
    using a by (cases r) (simp_all add: run_app_def del_mapper_environ_def)
qed

lemma redirect_response_frame:
  assumes "preserves k (url_call deps (URLGenerator (mapper self)) (redirect_name r) match)"
  shows "environ (snd (redirect_response self deps match r s)) k = environ s k"
proof -
  let ?f = "url_call deps (URLGenerator (mapper self)) (redirect_name r) match"
  obtain res s1 where a: "?f s = (res, s1)" by (cases "?f s")
  have "environ s1 k = environ s k"
    using preservesD [OF assms, of s] a by simp
  then show ?thesis
    using a by (cases res) (simp_all add: redirect_response_def start_response_def)
qed

lemma serve_frame:
  assumes "preserves k (app deps)"
      and "(k \<noteq> ''PATH_INFO'' \<and> k \<noteq> ''SCRIPT_NAME'')
           \<or> \<not> (path_info self \<and> map_of match ''path_info'' \<noteq> None)"
  shows "environ (snd (serve self deps match s)) k = environ s k"
proof -
  obtain res s1 where p: "path_rewrite self match s = (res, s1)"
    by (cases "path_rewrite self match s")
  have k1: "environ s1 k = environ s k"
    using assms(2) p path_rewrite_frame [of k self match s] path_rewrite_off [of self match s]
    by auto
  show ?thesis
  proof (cases res)
    case (Inl e)
    with p k1 show ?thesis by (simp add: serve_def)
  next
    case (Inr u)
    with p have "serve self deps match s = run_app deps s1" by (simp add: serve_def)
    with k1 run_app_frame [OF assms(1), of s1] show ?thesis by simp
  qed
qed

lemma after_publish_frame:
  assumes "\<forall>g name d. preserves k (url_call deps g name d)"
      and "preserves k (app deps)"
      and "(k \<noteq> ''PATH_INFO'' \<and> k \<noteq> ''SCRIPT_NAME'')
           \<or> \<not> (path_info self \<and> map_of match ''path_info'' \<noteq> None \<and> \<not> is_redirect route)"
  shows "environ (snd (case route of
                         None \<Rightarrow> serve self deps match s
                       | Some r \<Rightarrow> if redirect r then redirect_response self deps match r s
                                   else serve self deps match s)) k = environ s k"
proof (cases route)
  case None
  then show ?thesis
    using assms(2,3) by (simp add: serve_frame is_redirect_def)
next
  case (Some r)
  show ?thesis
  proof (cases "redirect r")
    case True
    with Some assms(1) show ?thesis by (simp add: redirect_response_frame)
  next
    case False
    with Some assms(2,3) show ?thesis by (simp add: serve_frame is_redirect_def)
  qed
qed

lemma dispatch_published:
  assumes "log_match self match route (environ s) = Inr ()"
      and "url_generator_init deps (mapper self) s = (Inr (), s0)"
  shows "dispatch self deps match route s =
         (case route of
            None \<Rightarrow> serve self deps (match_or_empty match)
                      (publish self (match_or_empty match) route s0)
          | Some r \<Rightarrow>
              if redirect r
              then redirect_response self deps (match_or_empty match) r
                     (publish self (match_or_empty match) route s0)
              else serve self deps (match_or_empty match)
                     (publish self (match_or_empty match) route s0))"
  using assms by (simp add: dispatch_def Let_def)

lemma dispatch_raises:
  "log_match self match route (environ s) = Inl e \<Longrightarrow>
   dispatch self deps match route s = (Inl e, s)"
  by (simp add: dispatch_def)

lemma dispatch_init_raises:
  assumes "log_match self match route (environ s) = Inr ()"
      and "url_generator_init deps (mapper self) s = (Inl e, s0)"
  shows "dispatch self deps match route s = (Inl e, s0)"
  using assms by (simp add: dispatch_def)

lemma dispatch_frame:
  assumes "\<forall>m. preserves k (url_generator_init deps m)"
      and "\<forall>g name d. preserves k (url_call deps g name d)"
      and "preserves k (app deps)"
      and "\<not> published_key k"
      and "(k \<noteq> ''PATH_INFO'' \<and> k \<noteq> ''SCRIPT_NAME'')
           \<or> \<not> (path_info self \<and> map_of (match_or_empty match) ''path_info'' \<noteq> None
                 \<and> \<not> is_redirect route)"
  shows "environ (snd (dispatch self deps match route s)) k = environ s k"
proof (cases "log_match self match route (environ s)")
  case (Inl e)
  then show ?thesis by (simp add: dispatch_raises)
next
  case (Inr u)
  then have l: "log_match self match route (environ s) = Inr ()" by simp
  obtain r s0 where i: "url_generator_init deps (mapper self) s = (r, s0)"
    by (cases "url_generator_init deps (mapper self) s")
  have k0: "environ s0 k = environ s k"
    using assms(1) preservesD [of k "url_generator_init deps (mapper self)" s] i by simp
  show ?thesis
  proof (cases r)
    case (Inl e)
    with l i k0 show ?thesis by (simp add: dispatch_init_raises)
  next
    case (Inr u)
    with i have "url_generator_init deps (mapper self) s = (Inr (), s0)" by simp
    then show ?thesis
      using after_publish_frame [OF assms(2,3,5), of "publish self (match_or_empty match) route s0"]
        assms(4) l k0
      by (simp add: dispatch_published publish_frame published_key_def)
  qed
qed

subsection \<open>Redirect routes\<close>

lemma apply_override_app:
  "apply_override (deps\<lparr>app := a\<rparr>) = apply_override deps"
  by (rule ext, rule ext) (simp add: apply_override_def cong: option.case_cong sum.case_cong)

lemma method_override_app:
  "method_override self (deps\<lparr>app := a\<rparr>) = method_override self deps"
  by (rule ext)
    (simp add: method_override_def form_override_def apply_override_app
      cong: if_cong sum.case_cong option.case_cong prod.case_cong)

lemma route_matching_app:
  "route_matching self (deps\<lparr>app := a\<rparr>) = route_matching self deps"
  by (rule ext) (simp add: route_matching_def cong: if_cong)

lemma resolve_app:
  "resolve self (deps\<lparr>app := a\<rparr>) s = resolve self deps s"
  by (simp add: resolve_def method_override_app route_matching_app cong: prod.case_cong sum.case_cong)

lemma redirect_response_app:
  "redirect_response self (deps\<lparr>app := a\<rparr>) match r s = redirect_response self deps match r s"
  by (simp add: redirect_response_def)

text \<open>
  Claim C4. The matched route has its redirect flag set (the match was resolved, the
  logging and the building of the generator raised nothing) and the generator, called
  with the name \<open>_redirect_\<close> followed by
  \<^verbatim>\<open>id(route)\<close> and with the matched variables, returns \<open>location\<close>. Then \<^verbatim>\<open>__call__\<close>
  returns the empty body after one more call of \<^verbatim>\<open>start_response\<close>, with the route's
  redirect status and exactly the headers \<open>Content-Type: text/plain; charset=utf8\<close> and
  \<open>Location: location\<close>; and the outcome is the same whatever the wrapped application is,
  so the application is not invoked.
\<close>

theorem redirect_short_circuit:
  assumes "resolve self deps s = (Inr (match, Some r), s1)"
      and "redirect r"
      and "log_match self match (Some r) (environ s1) = Inr ()"
      and "url_generator_init deps (mapper self) s1 = (Inr (), s0)"
      and "url_call deps (URLGenerator (mapper self)) (''_redirect_'' @ str_nat (route_id r))
             (match_or_empty match) (publish self (match_or_empty match) (Some r) s0)
           = (Inr location, s2)"
  shows "call self deps s =
           (Inr [],
            s2\<lparr>start_response_calls :=
                 start_response_calls s2 @
                 [(redirect_status r,
                   [(''Content-Type'', ''text/plain; charset=utf8''), (''Location'', location)])]\<rparr>)
         \<and> call self (deps\<lparr>app := other_app\<rparr>) s = call self deps s"
proof -
  have d: "call self deps' s = redirect_response self deps' (match_or_empty match) r
             (publish self (match_or_empty match) (Some r) s0)"
    if "resolve self deps' s = (Inr (match, Some r), s1)"
      and "url_generator_init deps' (mapper self) s1 = (Inr (), s0)"
    for deps' :: "('a, 'b, 'c) collaborators"
    using that assms(2,3) by (simp add: call_dispatch dispatch_redirect)
  have "call self deps s =
           (Inr [],
            s2\<lparr>start_response_calls :=
                 start_response_calls s2 @
                 [(redirect_status r,
                   [(''Content-Type'', ''text/plain; charset=utf8''), (''Location'', location)])]\<rparr>)"
    using d [OF assms(1,4)] assms(5)
    by (simp add: redirect_response_def redirect_name_def start_response_def redirect_headers_def)
  moreover have "call self (deps\<lparr>app := other_app\<rparr>) s = call self deps s"
    using d [of "deps\<lparr>app := other_app\<rparr>"] d [OF assms(1,4)] assms(1,4)
    by (simp add: resolve_app redirect_response_app)
  ultimately show ?thesis by simp
qed

text \<open>The example of the specification: status 302, variables \<open>{id: "7"}\<close>; the second
  application is one that raises whenever it is called.\<close>

theorem redirect_short_circuit_witness:
  "call demo_self (demo_deps (Some ([(''id'', Some ''7'')], moved_route)))
     (demo_request (demo_environ ''GET'' ''/old/7'' ''''))
   = (Inr [],
      (publish demo_self [(''id'', Some ''7'')] (Some moved_route)
         (demo_request (demo_environ ''GET'' ''/old/7'' '''')))
      \<lparr>mapper_environ := True,
        start_response_calls :=
          [(''302 Found'',
            [(''Content-Type'', ''text/plain; charset=utf8''),
             (''Location'', ''/to/_redirect_7'')])]\<rparr>)
   \<and> call demo_self ((demo_deps (Some ([(''id'', Some ''7'')], moved_route)))\<lparr>app := failing_app\<rparr>)
       (demo_request (demo_environ ''GET'' ''/old/7'' ''''))
     = call demo_self (demo_deps (Some ([(''id'', Some ''7'')], moved_route)))
         (demo_request (demo_environ ''GET'' ''/old/7'' ''''))"
proof -
  let ?match = "[(''id'', Some ''7'')]"
  let ?deps = "demo_deps (Some (?match, moved_route))"
  let ?s = "demo_request (demo_environ ''GET'' ''/old/7'' '''')"
  let ?s1 = "?s\<lparr>mapper_environ := True\<rparr>"
  let ?s2 = "publish demo_self ?match (Some moved_route) ?s1"
  have 1: "resolve demo_self ?deps ?s = (Inr (Some ?match, Some moved_route), ?s1)"
    by (simp add: step_defs demo_defs)
  have 2: "redirect moved_route"
    by (simp add: moved_route_def)
  have 3: "log_match demo_self (Some ?match) (Some moved_route) (environ ?s1) = Inr ()"
    by (simp add: step_defs demo_defs)
  have 4: "url_generator_init ?deps (mapper demo_self) ?s1 = (Inr (), ?s1)"
    by (simp add: demo_deps_def demo_init_def)
  have 5: "url_call ?deps (URLGenerator (mapper demo_self))
             (''_redirect_'' @ str_nat (route_id moved_route))
             (match_or_empty (Some ?match))
             (publish demo_self (match_or_empty (Some ?match)) (Some moved_route) ?s1)
           = (Inr ''/to/_redirect_7'', ?s2)"
    by (simp add: demo_deps_def demo_url_def moved_route_def digit_char_def match_or_empty_def
        truthy_match_def)
  show ?thesis
    using redirect_short_circuit [OF 1 2 3 4 5, of failing_app]
    by (simp add: publish_def set_item_def moved_route_def demo_request_def Let_def)
qed

subsection \<open>No match\<close>

text \<open>
  Claim C6. No route matched: the matcher gave no route and no variables (\<^verbatim>\<open>None\<close> or an
  empty dictionary); if debug logging is on, the environment has a method and a path to
  log; the generator is built without an exception. Then the middleware raises nothing of
  its own: the application is invoked in the environment in which \<open>wsgiorg.routing_args\<close> holds the generator and the empty
  dictionary and \<open>routes.route\<close> holds \<^verbatim>\<open>None\<close>, and its response is returned as it is
  (an exception of the application propagates).
\<close>

theorem no_match_passes_through:
  assumes "resolve self deps s = (Inr (match, None), s1)"
      and "\<not> truthy_match match"
      and "log_debug self \<longrightarrow>
             environ s1 ''REQUEST_METHOD'' \<noteq> None \<and> environ s1 ''PATH_INFO'' \<noteq> None"
      and "url_generator_init deps (mapper self) s1 = (Inr (), s0)"
  shows "call self deps s =
           (case app deps
                   (s0\<lparr>environ := (environ s0)
                          (''wsgiorg.routing_args'' \<mapsto> RoutingArgs (URLGenerator (mapper self)) [],
                           ''routes.route'' \<mapsto> NoneV,
                           ''routes.url'' \<mapsto> UrlV (URLGenerator (mapper self)))\<rparr>) of
              (Inl e, s2) \<Rightarrow> (Inl e, s2)
            | (Inr response, s2) \<Rightarrow> (Inr response, s2\<lparr>mapper_environ := False\<rparr>))"
proof -
  have l: "log_match self match None (environ s1) = Inr ()"
    using assms(2,3) by (auto simp: log_match_def urlinfo_def get_item_def)
  have m: "match_or_empty match = []"
    using assms(2) by (simp add: match_or_empty_def)
  have "call self deps s = serve self deps [] (publish self [] None s0)"
    using assms(1,4) l m by (simp add: call_dispatch dispatch_serve is_redirect_def)
  also have "\<dots> = run_app deps (publish self [] None s0)"
    by (simp add: serve_def path_rewrite_def)
  finally show ?thesis
    by (auto simp: run_app_def publish_def set_item_def route_val_def del_mapper_environ_def Let_def
        split: prod.splits sum.splits)
qed

text \<open>An instance in the direct mode, with debug logging on.\<close>

theorem no_match_passes_through_witness:
  "fst (call demo_direct (demo_deps None) (demo_request (demo_environ ''GET'' ''/nowhere'' '''')))
     = Inr [''ok'']
   \<and> environ (snd (call demo_direct (demo_deps None)
                     (demo_request (demo_environ ''GET'' ''/nowhere'' ''''))))
       ''wsgiorg.routing_args'' = Some (RoutingArgs (URLGenerator ()) [])
   \<and> environ (snd (call demo_direct (demo_deps None)
                     (demo_request (demo_environ ''GET'' ''/nowhere'' ''''))))
       ''routes.route'' = Some NoneV"
proof -
  let ?s = "demo_request (demo_environ ''GET'' ''/nowhere'' '''')"
  have 1: "resolve demo_direct (demo_deps None) ?s = (Inr (None, None), ?s)"
    by (simp add: step_defs demo_defs demo_direct_def)
  have 2: "\<not> truthy_match None"
    by (simp add: truthy_match_def)
  have 3: "log_debug demo_direct \<longrightarrow>
             environ ?s ''REQUEST_METHOD'' \<noteq> None \<and> environ ?s ''PATH_INFO'' \<noteq> None"
    by (simp add: demo_defs)
  have 4: "url_generator_init (demo_deps None) (mapper demo_direct) ?s = (Inr (), ?s)"
    by (simp add: demo_deps_def demo_init_def)
  show ?thesis
    using no_match_passes_through [OF 1 2 3 4]
    by (simp add: demo_deps_def demo_app_def start_response_def demo_direct_def demo_self_def)
qed


subsection \<open>Publishing the match\<close>

text \<open>The concrete collaborators leave every key of the environment alone.\<close>

lemma preserves_demo_init: "preserves k (demo_init m)"
  by (simp add: preserves_def demo_init_def)

lemma preserves_demo_url: "preserves k (demo_url g name d)"
  by (simp add: preserves_def demo_url_def)

lemma preserves_demo_app: "preserves k demo_app"
  by (simp add: preserves_def demo_app_def start_response_def)

lemma preserves_demo_GET: "preserves k demo_GET"
  by (simp add: preserves_def demo_GET_def)

lemma preserves_demo_POST: "preserves k demo_POST"
  by (simp add: preserves_def demo_POST_def)

lemma preserves_demo_config_match: "preserves k (demo_config_match found m)"
  by (simp add: preserves_def demo_config_match_def)

lemma preserves_demo_routematch: "preserves k (demo_routematch found m)"
  by (simp add: preserves_def demo_routematch_def)

lemma collaborators_preserve_demo: "collaborators_preserve k (demo_deps found)"
  by (simp add: collaborators_preserve_def demo_deps_def preserves_demo_init preserves_demo_url
      preserves_demo_app
      preserves_demo_GET preserves_demo_POST preserves_demo_config_match preserves_demo_routematch)

text \<open>
  Claim C8. On every request whose match was resolved (whatever it is: \<^verbatim>\<open>None\<close>, a redirect
  route, any other route) and whose logging raised nothing, a generator bound to the
  middleware's mapper is built, on the environment as it is then, and it, the variables
  and the route are written under \<open>wsgiorg.routing_args\<close>, \<open>routes.route\<close> and
  \<open>routes.url\<close>; the test of the redirect flag, and with it the redirect response or the
  serving of the request, starts from the environment that holds them. If the building
  raises nothing and the calls of the generator and the application leave these keys
  alone, they are in the environment at the end, whichever way the request went.
\<close>

theorem publish_before_redirect:
  assumes "resolve self deps s = (Inr (match, route), s1)"
      and "log_match self match route (environ s1) = Inr ()"
  shows "call self deps s =
           (case url_generator_init deps (mapper self) s1 of
              (Inl e, s0) \<Rightarrow> (Inl e, s0)
            | (Inr u, s0) \<Rightarrow>
                (let url = URLGenerator (mapper self);
                     sp = s0\<lparr>environ := (environ s0)
                               (''wsgiorg.routing_args'' \<mapsto> RoutingArgs url (match_or_empty match),
                                ''routes.route'' \<mapsto> route_val route,
                                ''routes.url'' \<mapsto> UrlV url)\<rparr>
                 in case route of
                      None \<Rightarrow> serve self deps (match_or_empty match) sp
                    | Some r \<Rightarrow>
                        if redirect r then redirect_response self deps (match_or_empty match) r sp
                        else serve self deps (match_or_empty match) sp))
         \<and> (fst (url_generator_init deps (mapper self) s1) = Inr () \<and>
            (\<forall>k. published_key k \<longrightarrow>
                  (\<forall>g name d. preserves k (url_call deps g name d)) \<and> preserves k (app deps))
             \<longrightarrow> environ (snd (call self deps s)) ''wsgiorg.routing_args''
                   = Some (RoutingArgs (URLGenerator (mapper self)) (match_or_empty match))
                 \<and> environ (snd (call self deps s)) ''routes.route'' = Some (route_val route)
                 \<and> environ (snd (call self deps s)) ''routes.url''
                   = Some (UrlV (URLGenerator (mapper self))))"
proof -
  let ?m = "match_or_empty match"
  let ?rest = "\<lambda>sp. case route of
                 None \<Rightarrow> serve self deps ?m sp
               | Some r \<Rightarrow>
                   if redirect r then redirect_response self deps ?m r sp
                   else serve self deps ?m sp"
  obtain res s0 where i: "url_generator_init deps (mapper self) s1 = (res, s0)"
    by (cases "url_generator_init deps (mapper self) s1")
  let ?sp = "publish self ?m route s0"
  have sp: "?sp = s0\<lparr>environ := (environ s0)
                          (''wsgiorg.routing_args'' \<mapsto> RoutingArgs (URLGenerator (mapper self)) ?m,
                           ''routes.route'' \<mapsto> route_val route,
                           ''routes.url'' \<mapsto> UrlV (URLGenerator (mapper self)))\<rparr>"
    by (simp add: publish_def set_item_def Let_def)
  have c: "call self deps s = ?rest ?sp" if "res = Inr ()"
    using assms i that by (simp add: call_dispatch dispatch_published)
  have first: "call self deps s =
           (case url_generator_init deps (mapper self) s1 of
              (Inl e, s0) \<Rightarrow> (Inl e, s0)
            | (Inr u, s0) \<Rightarrow>
                (let url = URLGenerator (mapper self);
                     sp = s0\<lparr>environ := (environ s0)
                               (''wsgiorg.routing_args'' \<mapsto> RoutingArgs url ?m,
                                ''routes.route'' \<mapsto> route_val route,
                                ''routes.url'' \<mapsto> UrlV url)\<rparr>
                 in ?rest sp))"
  proof (cases res)
    case (Inl e)
    with assms i show ?thesis by (simp add: call_dispatch dispatch_init_raises)
  next
    case (Inr u)
    then have "call self deps s = ?rest ?sp" by (intro c) simp
    then have "call self deps s =
                 ?rest (s0\<lparr>environ := (environ s0)
                          (''wsgiorg.routing_args'' \<mapsto> RoutingArgs (URLGenerator (mapper self)) ?m,
                           ''routes.route'' \<mapsto> route_val route,
                           ''routes.url'' \<mapsto> UrlV (URLGenerator (mapper self)))\<rparr>)"
      unfolding sp .
    then show ?thesis
      unfolding i Inr Let_def by simp
  qed
  have kept: "environ (snd (call self deps s)) k = environ ?sp k"
    if "res = Inr ()" and "published_key k"
      and "\<forall>g name d. preserves k (url_call deps g name d)" and "preserves k (app deps)" for k
  proof -
    have "k \<noteq> ''PATH_INFO'' \<and> k \<noteq> ''SCRIPT_NAME''"
      using that(2) by (auto simp: published_key_def)
    then show ?thesis
      using after_publish_frame [OF that(3,4), of self ?m route ?sp] c [OF that(1)] by simp
  qed
  have second: "environ (snd (call self deps s)) ''wsgiorg.routing_args''
                   = Some (RoutingArgs (URLGenerator (mapper self)) ?m)
                 \<and> environ (snd (call self deps s)) ''routes.route'' = Some (route_val route)
                 \<and> environ (snd (call self deps s)) ''routes.url''
                   = Some (UrlV (URLGenerator (mapper self)))"
    if h: "fst (url_generator_init deps (mapper self) s1) = Inr () \<and>
           (\<forall>k. published_key k \<longrightarrow>
                  (\<forall>g name d. preserves k (url_call deps g name d)) \<and> preserves k (app deps))"
  proof -
    have r: "res = Inr ()"
      using h i by simp
    have "published_key ''wsgiorg.routing_args''" "published_key ''routes.route''"
      "published_key ''routes.url''"
      by (simp_all add: published_key_def)
    then show ?thesis
      using h kept [OF r] by (simp add: environ_publish)
  qed
  from first second show ?thesis by blast
qed

text \<open>An instance that ends in a redirect.\<close>

theorem publish_before_redirect_witness:
  "environ (snd (call demo_self (demo_deps (Some ([(''id'', Some ''7'')], moved_route)))
                   (demo_request (demo_environ ''GET'' ''/old/7'' ''''))))
     ''wsgiorg.routing_args'' = Some (RoutingArgs (URLGenerator ()) [(''id'', Some ''7'')])
   \<and> environ (snd (call demo_self (demo_deps (Some ([(''id'', Some ''7'')], moved_route)))
                   (demo_request (demo_environ ''GET'' ''/old/7'' ''''))))
     ''routes.route'' = Some (RouteV moved_route)
   \<and> environ (snd (call demo_self (demo_deps (Some ([(''id'', Some ''7'')], moved_route)))
                   (demo_request (demo_environ ''GET'' ''/old/7'' ''''))))
     ''routes.url'' = Some (UrlV (URLGenerator ()))"
proof -
  let ?match = "[(''id'', Some ''7'')]"
  let ?deps = "demo_deps (Some (?match, moved_route))"
  let ?s = "demo_request (demo_environ ''GET'' ''/old/7'' '''')"
  let ?s1 = "?s\<lparr>mapper_environ := True\<rparr>"
  have 1: "resolve demo_self ?deps ?s = (Inr (Some ?match, Some moved_route), ?s1)"
    by (simp add: step_defs demo_defs)
  have 2: "log_match demo_self (Some ?match) (Some moved_route) (environ ?s1) = Inr ()"
    by (simp add: step_defs demo_defs)
  have 3: "fst (url_generator_init ?deps (mapper demo_self) ?s1) = Inr () \<and>
           (\<forall>k. published_key k \<longrightarrow>
             (\<forall>g name d. preserves k (url_call ?deps g name d)) \<and> preserves k (app ?deps))"
    by (simp add: demo_deps_def demo_init_def preserves_demo_url preserves_demo_app)
  show ?thesis
    using publish_before_redirect [OF 1 2, THEN conjunct2, THEN mp, OF 3]
    by (simp add: match_or_empty_def truthy_match_def route_val_def demo_self_def)
qed


subsection \<open>Method override\<close>








lemma apply_override_found:
  assumes "params ''_method'' = Some v" and "environ s ''REQUEST_METHOD'' = Some m"
  shows "apply_override deps params s =
         (Inr m, s\<lparr>environ := (environ s)(''REQUEST_METHOD'' \<mapsto> Str (str_upper deps v))\<rparr>)"
  using assms by (simp add: apply_override_def get_item_def set_item_def)

lemma apply_override_absent:
  "params ''_method'' = None \<Longrightarrow> apply_override deps params s = (Inr NoneV, s)"
  by (simp add: apply_override_def)

lemma resolve_after_override:
  "method_override self deps s = (Inr old_method, s1) \<Longrightarrow>
   resolve self deps s =
     (case route_matching self deps s1 of
        (Inl e, s2) \<Rightarrow> (Inl e, s2)
      | (Inr found, s2) \<Rightarrow> (Inr found, restore_method old_method s2))"
  by (simp add: resolve_def)

lemma resolve_no_override:
  assumes "method_override self deps s = (Inr NoneV, s1)"
  shows "resolve self deps s = route_matching self deps s1"
proof -
  obtain r s2 where m: "route_matching self deps s1 = (r, s2)"
    by (cases "route_matching self deps s1")
  show ?thesis
    using assms m by (cases r) (simp_all add: resolve_def restore_method_def)
qed

lemmas observing_defs = observing_deps_def observing_match_def demo_deps_def demo_GET_def
  demo_POST_def demo_self_def demo_environ_def demo_request_def
  parse_pairs_def parse_pair_def str_or_empty_def

text \<open>
  Claim C2. Override detection is enabled. A missing \<^verbatim>\<open>QUERY_STRING\<close> is read as the empty
  string and raises nothing: the step goes on with the form branch, as for any query
  string without \<open>_method\<close> in it. When \<open>_method\<close> occurs in the raw query string and the
  parsed parameters have \<open>_method\<close> with the value \<open>v\<close>, the method of the environment
  becomes \<^verbatim>\<open>str.upper\<close> of \<open>v\<close>, the method read just before (\<open>m\<close>) is recorded, the matching
  runs in the environment with the new method, and \<open>m\<close> is what is restored after it.
\<close>

theorem query_method_override:
  assumes "use_method_override self"
  shows "(environ s ''QUERY_STRING'' = None \<longrightarrow>
            query_string (environ s) = Inr '''' \<and>
            method_override self deps s = form_override deps s)
         \<and> (environ s ''QUERY_STRING'' = Some (Str (pre @ ''_method'' @ suf)) \<and>
            request_GET deps s = (Inr params, s1) \<and> params ''_method'' = Some v \<and>
            environ s1 ''REQUEST_METHOD'' = Some m \<longrightarrow>
            method_override self deps s =
              (Inr m, s1\<lparr>environ := (environ s1)(''REQUEST_METHOD'' \<mapsto> Str (str_upper deps v))\<rparr>) \<and>
            resolve self deps s =
              (case route_matching self deps
                      (s1\<lparr>environ := (environ s1)(''REQUEST_METHOD'' \<mapsto> Str (str_upper deps v))\<rparr>) of
                 (Inl e, s2) \<Rightarrow> (Inl e, s2)
               | (Inr found, s2) \<Rightarrow> (Inr found, restore_method m s2)))"
proof (intro conjI impI)
  assume "environ s ''QUERY_STRING'' = None"
  then show q: "query_string (environ s) = Inr ''''"
    by (simp add: query_string_def)
  then show "method_override self deps s = form_override deps s"
    using assms by (simp add: method_override_def)
next
  assume a: "environ s ''QUERY_STRING'' = Some (Str (pre @ ''_method'' @ suf)) \<and>
            request_GET deps s = (Inr params, s1) \<and> params ''_method'' = Some v \<and>
            environ s1 ''REQUEST_METHOD'' = Some m"
  then have q: "query_string (environ s) = Inr (pre @ ''_method'' @ suf)"
    by (simp add: query_string_def str_of_def)
  have c: "contains (pre @ ''_method'' @ suf) ''_method''"
    unfolding contains_iff by blast
  show o: "method_override self deps s =
              (Inr m, s1\<lparr>environ := (environ s1)(''REQUEST_METHOD'' \<mapsto> Str (str_upper deps v))\<rparr>)"
    using assms a q c by (simp add: method_override_def apply_override_found)
  show "resolve self deps s =
              (case route_matching self deps
                      (s1\<lparr>environ := (environ s1)(''REQUEST_METHOD'' \<mapsto> Str (str_upper deps v))\<rparr>) of
                 (Inl e, s2) \<Rightarrow> (Inl e, s2)
               | (Inr found, s2) \<Rightarrow> (Inr found, restore_method m s2))"
    using o by (rule resolve_after_override)
qed

text \<open>Instances: a request without a query string, and \<open>GET /blog?page=2&_method=put\<close>,
  for which the matcher sees \<open>PUT\<close> and the method is \<open>GET\<close> again afterwards.\<close>

theorem query_method_override_witness:
  "method_override demo_self observing_deps (demo_request bare_environ)
     = (Inr NoneV, demo_request bare_environ)
   \<and> fst (resolve demo_self observing_deps
            (demo_request (demo_environ ''GET'' ''/blog'' ''page=2&_method=put'')))
     = Inr (Some [(''seen'', Some ''PUT'')], Some blog_route)
   \<and> environ (snd (resolve demo_self observing_deps
                     (demo_request (demo_environ ''GET'' ''/blog'' ''page=2&_method=put''))))
       ''REQUEST_METHOD'' = Some (Str ''GET'')"
proof -
  let ?s = "demo_request (demo_environ ''GET'' ''/blog'' ''page=2&_method=put'')"
  have u: "use_method_override demo_self"
    by (simp add: demo_self_def)
  have a: "environ (demo_request bare_environ) ''QUERY_STRING'' = None"
    by (simp add: demo_request_def bare_environ_def)
  have b: "environ ?s ''QUERY_STRING'' = Some (Str (''page=2&'' @ ''_method'' @ ''=put'')) \<and>
           request_GET observing_deps ?s = (Inr (parse_pairs ''page=2&_method=put''), ?s) \<and>
           parse_pairs ''page=2&_method=put'' ''_method'' = Some ''put'' \<and>
           environ ?s ''REQUEST_METHOD'' = Some (Str ''GET'')"
    by (simp add: observing_defs)
  have first: "method_override demo_self observing_deps (demo_request bare_environ)
     = (Inr NoneV, demo_request bare_environ)"
    using query_method_override [OF u, THEN conjunct1, THEN mp, OF a, of observing_deps]
    by (simp add: form_override_def get_item_def demo_request_def bare_environ_def)
  have second: "fst (resolve demo_self observing_deps ?s)
       = Inr (Some [(''seen'', Some ''PUT'')], Some blog_route)
     \<and> environ (snd (resolve demo_self observing_deps ?s)) ''REQUEST_METHOD'' = Some (Str ''GET'')"
    using query_method_override [OF u, THEN conjunct2, THEN mp, OF b]
    by (simp add: route_matching_def restore_method_def set_item_def observing_defs string_defs)
  from first second show ?thesis by simp
qed



text \<open>
  Claim C9. Override detection is enabled, \<open>_method\<close> occurs in the raw query string, and
  the parsed query parameters have no \<open>_method\<close>. Then nothing is overridden: the step
  returns the state the query parser left, with no method recorded; it does so whatever
  the form parser is, so the form is not consulted; and the matching runs on that state.
\<close>

theorem query_without_method_parameter:
  assumes "use_method_override self"
      and "environ s ''QUERY_STRING'' = Some (Str (pre @ ''_method'' @ suf))"
      and "request_GET deps s = (Inr params, s1)"
      and "params ''_method'' = None"
  shows "method_override self deps s = (Inr NoneV, s1)
         \<and> method_override self (deps\<lparr>request_POST := other_parser\<rparr>) s = (Inr NoneV, s1)
         \<and> resolve self deps s = route_matching self deps s1"
proof -
  have q: "query_string (environ s) = Inr (pre @ ''_method'' @ suf)"
    using assms(2) by (simp add: query_string_def str_of_def)
  have c: "contains (pre @ ''_method'' @ suf) ''_method''"
    unfolding contains_iff by blast
  have o: "method_override self deps' s = (Inr NoneV, s1)"
    if "request_GET deps' s = (Inr params, s1)" for deps' :: "('a, 'b, 'c) collaborators"
    using that assms(1,4) q c by (simp add: method_override_def apply_override_absent)
  have "method_override self (deps\<lparr>request_POST := other_parser\<rparr>) s = (Inr NoneV, s1)"
    using assms(3) by (intro o) simp
  with o [OF assms(3)] resolve_no_override [OF o [OF assms(3)]] show ?thesis by simp
qed

text \<open>An instance: a \<open>POST\<close> of \<open>multipart/form-data\<close> whose body is \<open>_method=delete\<close>, to
  a URL with the query \<open>x_method=1\<close>; the matcher sees \<open>POST\<close>.\<close>

theorem query_without_method_parameter_witness:
  "method_override demo_self observing_deps
     (demo_request (form_environ ''multipart/form-data'' ''x_method=1''))
   = (Inr NoneV, demo_request (form_environ ''multipart/form-data'' ''x_method=1''))
   \<and> fst (resolve demo_self observing_deps
            (demo_request (form_environ ''multipart/form-data'' ''x_method=1'')))
     = Inr (Some [(''seen'', Some ''POST'')], Some blog_route)"
proof -
  let ?s = "demo_request (form_environ ''multipart/form-data'' ''x_method=1'')"
  have 1: "use_method_override demo_self"
    by (simp add: demo_self_def)
  have 2: "environ ?s ''QUERY_STRING'' = Some (Str (''x'' @ ''_method'' @ ''=1''))"
    by (simp add: observing_defs form_environ_def)
  have 3: "request_GET observing_deps ?s = (Inr (parse_pairs ''x_method=1''), ?s)"
    by (simp add: observing_defs form_environ_def)
  have 4: "parse_pairs ''x_method=1'' ''_method'' = None"
    by (simp add: parse_pairs_def parse_pair_def)
  show ?thesis
    using query_without_method_parameter [OF 1 2 3 4, of demo_POST]
    by (simp add: route_matching_def observing_defs form_environ_def)
qed


subsection \<open>The frame of the whole call\<close>

lemma apply_override_frame:
  "k \<noteq> ''REQUEST_METHOD'' \<Longrightarrow> environ (snd (apply_override deps params s)) k = environ s k"
  by (simp add: apply_override_def set_item_def split: option.splits sum.splits)

lemma parse_then_override_frame:
  assumes "preserves k parser" and "k \<noteq> ''REQUEST_METHOD''"
  shows "environ (snd (case parser s of
                         (Inl e, s1) \<Rightarrow> (Inl e, s1)
                       | (Inr params, s1) \<Rightarrow> apply_override deps params s1)) k = environ s k"
proof -
  obtain r s1 where p: "parser s = (r, s1)" by (cases "parser s")
  have "environ s1 k = environ s k"
    using preservesD [OF assms(1), of s] p by simp
  then show ?thesis
    using p assms(2) by (cases r) (simp_all add: apply_override_frame)
qed

lemma form_override_frame:
  assumes "preserves k (request_POST deps)" and "k \<noteq> ''REQUEST_METHOD''"
  shows "environ (snd (form_override deps s)) k = environ s k"
  using parse_then_override_frame [OF assms, where s = s and deps = deps]
  by (simp add: form_override_def split: sum.splits)

lemma method_override_frame:
  assumes "preserves k (request_GET deps)" and "preserves k (request_POST deps)"
      and "k \<noteq> ''REQUEST_METHOD''"
  shows "environ (snd (method_override self deps s)) k = environ s k"
  using parse_then_override_frame [OF assms(1,3), where s = s and deps = deps]
    form_override_frame [OF assms(2,3), of s]
  by (simp add: method_override_def split: sum.splits)

lemma route_matching_frame:
  assumes "\<forall>m. preserves k (config_match deps m)" and "\<forall>m. preserves k (routematch deps m)"
  shows "environ (snd (route_matching self deps s)) k = environ s k"
proof (cases "singleton self")
  case True
  then show ?thesis
    using assms(1) by (simp add: route_matching_def preservesD)
next
  case False
  obtain r s1 where m: "routematch deps (mapper self) s = (r, s1)"
    by (cases "routematch deps (mapper self) s")
  have "environ s1 k = environ s k"
    using assms(2) preservesD [of k "routematch deps (mapper self)" s] m by simp
  then show ?thesis
    using False m by (simp add: route_matching_def split: sum.splits option.splits)
qed

lemma restore_method_frame:
  "k \<noteq> ''REQUEST_METHOD'' \<Longrightarrow> environ (restore_method old s) k = environ s k"
  by (simp add: restore_method_def set_item_def)

lemma resolve_frame:
  assumes "collaborators_preserve k deps" and "k \<noteq> ''REQUEST_METHOD''"
  shows "environ (snd (resolve self deps s)) k = environ s k"
proof -
  obtain r s1 where o: "method_override self deps s = (r, s1)"
    by (cases "method_override self deps s")
  have k1: "environ s1 k = environ s k"
    using method_override_frame [of k deps self s] assms o
    by (simp add: collaborators_preserve_def)
  show ?thesis
  proof (cases r)
    case (Inl e)
    with o k1 show ?thesis by (simp add: resolve_def)
  next
    case (Inr old)
    obtain r2 s2 where m: "route_matching self deps s1 = (r2, s2)"
      by (cases "route_matching self deps s1")
    have k2: "environ s2 k = environ s1 k"
      using route_matching_frame [of k deps self s1] assms(1) m
      by (simp add: collaborators_preserve_def)
    show ?thesis
      using o Inr m k1 k2 assms(2) by (cases r2) (simp_all add: resolve_def restore_method_frame)
  qed
qed

text \<open>The method that is recorded is the one the request came with, when the parsers
  leave it alone.\<close>

lemma apply_override_method:
  assumes "apply_override deps params s = (Inr old, s1)"
  shows "(old = NoneV \<and> s1 = s) \<or> environ s ''REQUEST_METHOD'' = Some old"
  using assms
  by (auto simp: apply_override_def get_item_def split: option.splits)

lemma parse_then_override_method:
  assumes "preserves ''REQUEST_METHOD'' parser"
      and "(case parser s of
              (Inl e, s1) \<Rightarrow> (Inl e, s1)
            | (Inr params, s1) \<Rightarrow> apply_override deps params s1) = (Inr old, t)"
  shows "(old = NoneV \<and> environ t ''REQUEST_METHOD'' = environ s ''REQUEST_METHOD'')
         \<or> environ s ''REQUEST_METHOD'' = Some old"
proof -
  obtain r s1 where p: "parser s = (r, s1)" by (cases "parser s")
  have k: "environ s1 ''REQUEST_METHOD'' = environ s ''REQUEST_METHOD''"
    using preservesD [OF assms(1), of s] p by simp
  from assms(2) p obtain params where "r = Inr params"
    and "apply_override deps params s1 = (Inr old, t)"
    by (cases r) auto
  then show ?thesis
    using apply_override_method [of deps params s1 old t] k by auto
qed

lemma method_override_method:
  assumes "preserves ''REQUEST_METHOD'' (request_GET deps)"
      and "preserves ''REQUEST_METHOD'' (request_POST deps)"
      and "method_override self deps s = (Inr old, s1)"
  shows "(old = NoneV \<and> environ s1 ''REQUEST_METHOD'' = environ s ''REQUEST_METHOD'')
         \<or> environ s ''REQUEST_METHOD'' = Some old"
proof (cases "use_method_override self")
  case False
  with assms(3) show ?thesis by (simp add: method_override_def)
next
  case True
  show ?thesis
  proof (cases "query_string (environ s)")
    case (Inl e)
    with True assms(3) show ?thesis by (simp add: method_override_def)
  next
    case (Inr qs)
    show ?thesis
    proof (cases "contains qs ''_method''")
      case c: True
      with True Inr assms(3) show ?thesis
        using parse_then_override_method [OF assms(1), where s = s and deps = deps
            and old = old and t = s1]
        by (simp add: method_override_def)
    next
      case c: False
      with True Inr assms(3) have f: "form_override deps s = (Inr old, s1)"
        by (simp add: method_override_def)
      show ?thesis
      proof (cases "\<exists>params s'. request_POST deps s = (Inr params, s')
                      \<and> apply_override deps params s' = (Inr old, s1)")
        case True
        then have "(case request_POST deps s of
              (Inl e, s1) \<Rightarrow> (Inl e, s1)
            | (Inr params, s1) \<Rightarrow> apply_override deps params s1) = (Inr old, s1)"
          by auto
        then show ?thesis
          by (rule parse_then_override_method [OF assms(2)])
      next
        case False
        with f have "old = NoneV \<and> s1 = s"
          by (auto simp: form_override_def split: sum.splits if_splits prod.splits)
        then show ?thesis by simp
      qed
    qed
  qed
qed

lemma resolve_method:
  assumes "collaborators_preserve ''REQUEST_METHOD'' deps"
      and "\<forall>v. environ s ''REQUEST_METHOD'' = Some v \<longrightarrow> truthy v"
      and "resolve self deps s = (Inr found, s1)"
  shows "environ s1 ''REQUEST_METHOD'' = environ s ''REQUEST_METHOD''"
proof -
  from assms(3) obtain old s' s2 where o: "method_override self deps s = (Inr old, s')"
    and m: "route_matching self deps s' = (Inr found, s2)"
    and r: "s1 = restore_method old s2"
    by (auto simp: resolve_def split: prod.splits sum.splits)
  have k2: "environ s2 ''REQUEST_METHOD'' = environ s' ''REQUEST_METHOD''"
    using route_matching_frame [of "''REQUEST_METHOD''" deps self s'] assms(1) m
    by (simp add: collaborators_preserve_def)
  have "(old = NoneV \<and> environ s' ''REQUEST_METHOD'' = environ s ''REQUEST_METHOD'')
         \<or> environ s ''REQUEST_METHOD'' = Some old"
    using method_override_method [of deps self s old s'] assms(1) o
    by (simp add: collaborators_preserve_def)
  then show ?thesis
  proof
    assume "old = NoneV \<and> environ s' ''REQUEST_METHOD'' = environ s ''REQUEST_METHOD''"
    with r k2 show ?thesis by (simp add: restore_method_def)
  next
    assume e: "environ s ''REQUEST_METHOD'' = Some old"
    with assms(2) have "truthy old" by simp
    with r e show ?thesis by (simp add: restore_method_def set_item_def)
  qed
qed

lemma call_frame_after_resolve:
  assumes "collaborators_preserve k deps" and "\<not> published_key k"
      and "(k \<noteq> ''PATH_INFO'' \<and> k \<noteq> ''SCRIPT_NAME'')
           \<or> (\<forall>match route s1. resolve self deps s = (Inr (match, route), s1)
                 \<longrightarrow> \<not> rewrite_branch self match route)"
  shows "environ (snd (call self deps s)) k = environ (snd (resolve self deps s)) k"
proof -
  obtain r s1 where res: "resolve self deps s = (r, s1)" by (cases "resolve self deps s")
  show ?thesis
  proof (cases r)
    case (Inl e)
    with res show ?thesis by (simp add: call_def)
  next
    case (Inr found)
    obtain match route where f: "found = (match, route)" by (cases found)
    have c: "call self deps s = dispatch self deps match route s1"
      using res Inr f by (simp add: call_dispatch)
    have "(k \<noteq> ''PATH_INFO'' \<and> k \<noteq> ''SCRIPT_NAME'')
           \<or> \<not> (path_info self \<and> map_of (match_or_empty match) ''path_info'' \<noteq> None
                 \<and> \<not> is_redirect route)"
      using assms(3) res Inr f by (auto simp: rewrite_branch_def)
    then have "environ (snd (dispatch self deps match route s1)) k = environ s1 k"
      using assms(1,2) by (intro dispatch_frame) (simp_all add: collaborators_preserve_def)
    with c res show ?thesis by simp
  qed
qed

subsection \<open>Restoring the method\<close>

text \<open>
  Claim C1. An override recorded the method \<open>old_method\<close>, a true value (WSGI requires
  \<^verbatim>\<open>REQUEST_METHOD\<close> to be a non-empty string, and line 111 tests \<^verbatim>\<open>if old_method\<close>), and the
  matching returned, with any result. Then the step that ends at line 112 leaves the
  environment of the matcher with \<^verbatim>\<open>REQUEST_METHOD\<close> set back to \<open>old_method\<close>, and
  everything that looks at the match (lines 114 to 163) runs from that state. The recorded
  method is the one the request came with when the parsers leave it alone, and the method
  is still \<open>old_method\<close> when the call ends, when the generator (its building and its
  calls) and the application leave it alone.
\<close>

theorem method_restored_after_matching:
  assumes "method_override self deps s = (Inr old_method, s1)"
      and "truthy old_method"
      and "route_matching self deps s1 = (Inr (match, route), s2)"
  shows "resolve self deps s =
           (Inr (match, route), s2\<lparr>environ := (environ s2)(''REQUEST_METHOD'' \<mapsto> old_method)\<rparr>)
         \<and> call self deps s =
             dispatch self deps match route
               (s2\<lparr>environ := (environ s2)(''REQUEST_METHOD'' \<mapsto> old_method)\<rparr>)
         \<and> (preserves ''REQUEST_METHOD'' (request_GET deps) \<and>
            preserves ''REQUEST_METHOD'' (request_POST deps) \<longrightarrow>
            environ s ''REQUEST_METHOD'' = Some old_method)
         \<and> ((\<forall>m. preserves ''REQUEST_METHOD'' (url_generator_init deps m)) \<and>
            (\<forall>g name d. preserves ''REQUEST_METHOD'' (url_call deps g name d)) \<and>
            preserves ''REQUEST_METHOD'' (app deps) \<longrightarrow>
            environ (snd (call self deps s)) ''REQUEST_METHOD'' = Some old_method)"
proof -
  let ?s3 = "s2\<lparr>environ := (environ s2)(''REQUEST_METHOD'' \<mapsto> old_method)\<rparr>"
  have r: "resolve self deps s = (Inr (match, route), ?s3)"
    using assms by (simp add: resolve_def restore_method_def set_item_def)
  then have c: "call self deps s = dispatch self deps match route ?s3"
    by (rule call_dispatch)
  have o: "environ s ''REQUEST_METHOD'' = Some old_method"
    if "preserves ''REQUEST_METHOD'' (request_GET deps) \<and>
        preserves ''REQUEST_METHOD'' (request_POST deps)"
    using method_override_method [of deps self s old_method s1] that assms(1,2) by auto
  have e: "environ (snd (call self deps s)) ''REQUEST_METHOD'' = Some old_method"
    if "(\<forall>m. preserves ''REQUEST_METHOD'' (url_generator_init deps m)) \<and>
        (\<forall>g name d. preserves ''REQUEST_METHOD'' (url_call deps g name d)) \<and>
        preserves ''REQUEST_METHOD'' (app deps)"
  proof -
    have "environ (snd (dispatch self deps match route ?s3)) ''REQUEST_METHOD''
          = environ ?s3 ''REQUEST_METHOD''"
      using that by (intro dispatch_frame) (simp_all add: published_key_def)
    with c show ?thesis by simp
  qed
  from r c o e show ?thesis by blast
qed

text \<open>An instance: \<open>GET /x?_method=put\<close>, which no route matches.\<close>

theorem method_restored_after_matching_witness:
  "environ (snd (call demo_self (demo_deps None)
                   (demo_request (demo_environ ''GET'' ''/x'' ''_method=put''))))
     ''REQUEST_METHOD'' = Some (Str ''GET'')"
proof -
  let ?s = "demo_request (demo_environ ''GET'' ''/x'' ''_method=put'')"
  let ?s1 = "?s\<lparr>environ := (environ ?s)(''REQUEST_METHOD'' \<mapsto> Str ''PUT'')\<rparr>"
  let ?s2 = "?s1\<lparr>mapper_environ := True\<rparr>"
  have 1: "method_override demo_self (demo_deps None) ?s = (Inr (Str ''GET''), ?s1)"
    by (simp add: step_defs demo_defs string_defs)
  have 2: "truthy (Str ''GET'' :: (unit, unit) val)"
    by simp
  have 3: "route_matching demo_self (demo_deps None) ?s1 = (Inr (None, None), ?s2)"
    by (simp add: route_matching_def demo_defs)
  have 4: "(\<forall>m. preserves ''REQUEST_METHOD'' (url_generator_init (demo_deps None) m)) \<and>
            (\<forall>g name d. preserves ''REQUEST_METHOD'' (url_call (demo_deps None) g name d)) \<and>
            preserves ''REQUEST_METHOD'' (app (demo_deps None))"
    by (simp add: demo_deps_def preserves_demo_init preserves_demo_url preserves_demo_app)
  show ?thesis
    using method_restored_after_matching [OF 1 2 3, THEN conjunct2, THEN conjunct2,
        THEN conjunct2, THEN mp, OF 4]
    by simp
qed

subsection \<open>What the middleware writes\<close>

text \<open>
  Claim C10, as the code has it. Take a key \<open>k\<close> of the environment that the collaborators
  (the request parsers, the matcher, the generator and the application) leave alone. If
  \<open>k\<close> is none of \<^verbatim>\<open>REQUEST_METHOD\<close>, \<^verbatim>\<open>PATH_INFO\<close>, \<^verbatim>\<open>SCRIPT_NAME\<close>, \<open>wsgiorg.routing_args\<close>,
  \<open>routes.route\<close> and \<open>routes.url\<close>, the call leaves it as it was, however the call ends.
  \<^verbatim>\<open>PATH_INFO\<close> and \<^verbatim>\<open>SCRIPT_NAME\<close> are left as they were unless the call takes the rewrite
  branch. When the method the request came with is a true value and the matching returns,
  the method is the original one again after line 112, before the application runs, and
  at the end.
\<close>

theorem middleware_frame:
  assumes "collaborators_preserve k deps"
  shows "(k \<noteq> ''REQUEST_METHOD'' \<and> k \<noteq> ''PATH_INFO'' \<and> k \<noteq> ''SCRIPT_NAME'' \<and>
          k \<noteq> ''wsgiorg.routing_args'' \<and> k \<noteq> ''routes.route'' \<and> k \<noteq> ''routes.url'' \<longrightarrow>
          environ (snd (call self deps s)) k = environ s k)
         \<and> ((k = ''PATH_INFO'' \<or> k = ''SCRIPT_NAME'') \<and>
            (\<forall>match route s1. resolve self deps s = (Inr (match, route), s1)
               \<longrightarrow> \<not> rewrite_branch self match route) \<longrightarrow>
            environ (snd (call self deps s)) k = environ s k)
         \<and> (k = ''REQUEST_METHOD'' \<and> (\<forall>v. environ s k = Some v \<longrightarrow> truthy v) \<and>
            resolve self deps s = (Inr found, s1) \<longrightarrow>
            environ s1 k = environ s k \<and> environ (snd (call self deps s)) k = environ s k)"
proof (intro conjI impI)
  assume a: "k \<noteq> ''REQUEST_METHOD'' \<and> k \<noteq> ''PATH_INFO'' \<and> k \<noteq> ''SCRIPT_NAME'' \<and>
          k \<noteq> ''wsgiorg.routing_args'' \<and> k \<noteq> ''routes.route'' \<and> k \<noteq> ''routes.url''"
  then have "environ (snd (call self deps s)) k = environ (snd (resolve self deps s)) k"
    using assms by (intro call_frame_after_resolve) (simp_all add: published_key_def)
  then show "environ (snd (call self deps s)) k = environ s k"
    using a assms by (simp add: resolve_frame)
next
  assume a: "(k = ''PATH_INFO'' \<or> k = ''SCRIPT_NAME'') \<and>
            (\<forall>match route s1. resolve self deps s = (Inr (match, route), s1)
               \<longrightarrow> \<not> rewrite_branch self match route)"
  then have n: "\<not> published_key k" "k \<noteq> ''REQUEST_METHOD''"
    by (auto simp: published_key_def)
  have "environ (snd (call self deps s)) k = environ (snd (resolve self deps s)) k"
    using assms n(1) a by (intro call_frame_after_resolve) simp_all
  then show "environ (snd (call self deps s)) k = environ s k"
    using n(2) assms by (simp add: resolve_frame)
next
  assume a: "k = ''REQUEST_METHOD'' \<and> (\<forall>v. environ s k = Some v \<longrightarrow> truthy v) \<and>
            resolve self deps s = (Inr found, s1)"
  then show r: "environ s1 k = environ s k"
    using resolve_method [of deps s self found s1] assms by simp
  have "environ (snd (call self deps s)) k = environ (snd (resolve self deps s)) k"
    using assms a by (intro call_frame_after_resolve) (simp_all add: published_key_def)
  with a r show "environ (snd (call self deps s)) k = environ s k"
    by simp
qed

text \<open>Instances: the query string and the method of a rewritten request with an
  override, and the path of a request that no route matches.\<close>

theorem middleware_frame_witness:
  "environ (snd (call demo_self (demo_deps (Some ([(''path_info'', Some ''a/b'')], blog_route)))
                   (demo_request (demo_environ ''GET'' ''/blog/a/b'' ''_method=put''))))
     ''QUERY_STRING'' = Some (Str ''_method=put'')
   \<and> environ (snd (call demo_self (demo_deps None)
                   (demo_request (demo_environ ''GET'' ''/x'' ''_method=put''))))
     ''PATH_INFO'' = Some (Str ''/x'')
   \<and> environ (snd (call demo_self (demo_deps (Some ([(''path_info'', Some ''a/b'')], blog_route)))
                   (demo_request (demo_environ ''GET'' ''/blog/a/b'' ''_method=put''))))
     ''REQUEST_METHOD'' = Some (Str ''GET'')"
proof -
  let ?match = "[(''path_info'', Some ''a/b'')]"
  let ?deps = "demo_deps (Some (?match, blog_route))"
  let ?s = "demo_request (demo_environ ''GET'' ''/blog/a/b'' ''_method=put'')"
  let ?t = "demo_request (demo_environ ''GET'' ''/x'' ''_method=put'')"
  have 1: "''QUERY_STRING'' \<noteq> ''REQUEST_METHOD'' \<and> ''QUERY_STRING'' \<noteq> ''PATH_INFO'' \<and>
           ''QUERY_STRING'' \<noteq> ''SCRIPT_NAME'' \<and> ''QUERY_STRING'' \<noteq> ''wsgiorg.routing_args'' \<and>
           ''QUERY_STRING'' \<noteq> ''routes.route'' \<and> ''QUERY_STRING'' \<noteq> ''routes.url''"
    by simp
  have r: "fst (resolve demo_self (demo_deps None) ?t) = Inr (None, None)"
    by (simp add: step_defs demo_defs string_defs)
  have "\<not> rewrite_branch demo_self match route"
    if "resolve demo_self (demo_deps None) ?t = (Inr (match, route), s1)" for match route s1
  proof -
    from that have "fst (resolve demo_self (demo_deps None) ?t) = Inr (match, route)"
      by simp
    with r have "match = None \<and> route = None"
      by simp
    then show ?thesis
      by (simp add: rewrite_branch_def match_or_empty_def truthy_match_def)
  qed
  then have 2: "(''PATH_INFO'' = ''PATH_INFO'' \<or> ''PATH_INFO'' = ''SCRIPT_NAME'') \<and>
           (\<forall>match route s1. resolve demo_self (demo_deps None) ?t = (Inr (match, route), s1)
               \<longrightarrow> \<not> rewrite_branch demo_self match route)"
    by blast
  have 3: "''REQUEST_METHOD'' = ''REQUEST_METHOD'' \<and>
           (\<forall>v. environ ?s ''REQUEST_METHOD'' = Some v \<longrightarrow> truthy v) \<and>
           resolve demo_self ?deps ?s
             = (Inr (Some ?match, Some blog_route),
                ?s\<lparr>environ := (environ ?s)(''REQUEST_METHOD'' \<mapsto> Str ''GET''),
                   mapper_environ := True\<rparr>)"
    by (simp add: step_defs demo_defs string_defs)
  have a: "environ (snd (call demo_self ?deps ?s)) ''QUERY_STRING'' = Some (Str ''_method=put'')"
    using middleware_frame [where deps = ?deps and self = demo_self and s = ?s,
        OF collaborators_preserve_demo, THEN conjunct1, THEN mp, OF 1]
    by (simp add: demo_request_def demo_environ_def)
  have b: "environ (snd (call demo_self (demo_deps None) ?t)) ''PATH_INFO'' = Some (Str ''/x'')"
    using middleware_frame [OF collaborators_preserve_demo, THEN conjunct2, THEN conjunct1,
        THEN mp, OF 2]
    by (simp add: demo_request_def demo_environ_def)
  have c: "environ (snd (call demo_self ?deps ?s)) ''REQUEST_METHOD'' = Some (Str ''GET'')"
    using middleware_frame [OF collaborators_preserve_demo, THEN conjunct2, THEN conjunct2,
        THEN mp, OF 3]
    by (simp add: demo_request_def demo_environ_def)
  from a b c show ?thesis by simp
qed


text \<open>
  With only the matcher and the application left out, the claim does not hold: the
  request object that lines 71 and 72 build and assign to, and the generator that line 128
  builds, are given the environment and can write to it. Here the matcher and the
  application leave both keys alone, no route matches, and the call ends with a new key
  \<open>webob.adhoc_attrs\<close> and with a \<^verbatim>\<open>SCRIPT_NAME\<close> that the request did not have.
\<close>

theorem collaborators_write_environ:
  "environ (demo_request query_environ) ''webob.adhoc_attrs'' = None
   \<and> environ (snd (call demo_self storing_deps (demo_request query_environ)))
       ''webob.adhoc_attrs'' = Some (Obj ())
   \<and> environ (demo_request query_environ) ''SCRIPT_NAME'' = None
   \<and> environ (snd (call demo_self storing_deps (demo_request query_environ)))
       ''SCRIPT_NAME'' = Some (Str '''')
   \<and> fst (resolve demo_self storing_deps (demo_request query_environ)) = Inr (None, None)
   \<and> preserves ''webob.adhoc_attrs'' (config_match storing_deps ())
   \<and> preserves ''webob.adhoc_attrs'' (app storing_deps)
   \<and> preserves ''SCRIPT_NAME'' (config_match storing_deps ())
   \<and> preserves ''SCRIPT_NAME'' (app storing_deps)"
  by (simp add: call_def dispatch_def serve_def run_app_def step_defs demo_defs string_defs
      storing_deps_def storing_GET_def defaulting_init_def query_environ_def bare_environ_def
      preserves_def Let_def)

end
